theory Spec2Isabelle
  imports Main "HOL-Library.Sublist"
begin

section \<open>Data model (types/task.ts, lib/api.ts)\<close>

text \<open>
  The string unions of \<^verbatim>\<open>types/task.ts\<close> are datatypes. The source uses the literal
  \<^verbatim>\<open>'pending'\<close> in two unions, so the constructors carry the name of their type.
\<close>

datatype TaskStatus = Status_pending | Status_completed

datatype SyncStatus = Sync_synced | Sync_pending | Sync_conflict

text \<open>
  \<^verbatim>\<open>ApiTask\<close>, \<^verbatim>\<open>CreateTaskPayload\<close> and \<^verbatim>\<open>UpdateTaskPayload\<close> of \<^verbatim>\<open>lib/api.ts\<close>,
  \<^verbatim>\<open>CreateTaskInput\<close> and \<^verbatim>\<open>UpdateTaskInput\<close> of \<^verbatim>\<open>types/task.ts\<close>. An optional
  field (\<^verbatim>\<open>title?: string\<close>) and a nullable one (\<^verbatim>\<open>string | null\<close>) are options.
  The field \<^verbatim>\<open>id\<close> is written \<open>id'\<close>, since \<open>id\<close> is the identity function of HOL.
  Timestamps are JavaScript numbers holding epoch milliseconds: integers.
\<close>

record ApiTask =
  id' :: string
  userId :: string
  title :: string
  description :: "string option"
  status :: TaskStatus
  lastUpdatedAt :: int

record CreateTaskPayload =
  title :: string
  description :: "string option"
  status :: TaskStatus
  lastUpdatedAt :: int

record UpdateTaskPayload =
  title :: "string option"
  description :: "string option"
  status :: "TaskStatus option"
  lastUpdatedAt :: "int option"

record CreateTaskInput =
  title :: string
  description :: "string option"

record UpdateTaskInput =
  title :: "string option"
  description :: "string option"
  status :: "TaskStatus option"

text \<open>The anonymous object type of the parameter of \<^verbatim>\<open>upsertTaskFromServer\<close>.\<close>

record ServerTaskInput =
  id' :: string
  title :: string
  description :: "string option"
  status :: TaskStatus
  lastUpdatedAt :: int

text \<open>
  \<^verbatim>\<open>TaskRow\<close> (lib/tasks.ts) and \<^verbatim>\<open>Task\<close> (types/task.ts) have the same fields; the three
  provenance flags are numbers in a row of the table and booleans in a \<^verbatim>\<open>Task\<close>. One
  record with the type of the flags as parameter gives both.
\<close>

record 'flag TaskRec =
  id' :: string
  title :: string
  description :: "string option"
  status :: TaskStatus
  lastUpdatedAt :: int
  serverLastUpdatedAt :: "int option"
  syncStatus :: SyncStatus
  locallyCreated :: 'flag
  locallyModified :: 'flag
  locallyDeleted :: 'flag

type_synonym TaskRow = "int TaskRec"

type_synonym Task = "bool TaskRec"

definition rowToTask :: "TaskRow \<Rightarrow> Task" where
  "rowToTask row =
     \<lparr> id' = id' row,
       title = title row,
       description = description row,
       status = status row,
       lastUpdatedAt = lastUpdatedAt row,
       serverLastUpdatedAt = serverLastUpdatedAt row,
       syncStatus = syncStatus row,
       locallyCreated = (locallyCreated row = 1),
       locallyModified = (locallyModified row = 1),
       locallyDeleted = (locallyDeleted row = 1) \<rparr>"

text \<open>\<^verbatim>\<open>s.includes(sub)\<close> of JavaScript: \<open>sub\<close> occurs in \<open>s\<close> as a contiguous run.\<close>

fun String_includes :: "string \<Rightarrow> string \<Rightarrow> bool" where
  "String_includes [] sub = (sub = [])"
| "String_includes (c # cs) sub = (prefix sub (c # cs) \<or> String_includes cs sub)"

section \<open>The local database (lib/db.ts)\<close>

text \<open>
  The database holds one table, \<^verbatim>\<open>tasks\<close>, with \<^verbatim>\<open>id TEXT PRIMARY KEY\<close>. Its state is
  \<open>None\<close> while the table does not exist (before \<^verbatim>\<open>initializeDatabase\<close>, after
  \<^verbatim>\<open>destroyDatabase\<close>) and otherwise the list of its rows, in order of insertion.
  A statement on the missing table throws SQLite's \<^verbatim>\<open>no such table\<close> error, an
  \<^verbatim>\<open>INSERT\<close> of an id that is present throws the constraint error; these are the two
  failures of the store that the model has. The texts of the messages are SQLite's;
  the source only tests for the substring \<^verbatim>\<open>no such table\<close>.
\<close>

datatype db_error = NoSuchTable | UniqueConstraint

fun db_error_message :: "db_error \<Rightarrow> string" where
  "db_error_message NoSuchTable = ''no such table: tasks''"
| "db_error_message UniqueConstraint = ''UNIQUE constraint failed: tasks.id''"

type_synonym database = "TaskRow list option"

definition initializeDatabase :: "database \<Rightarrow> database" where
  \<comment> \<open>\<^verbatim>\<open>CREATE TABLE IF NOT EXISTS tasks\<close>\<close>
  "initializeDatabase d = (case d of None \<Rightarrow> Some [] | Some rows \<Rightarrow> Some rows)"

definition destroyDatabase :: "database \<Rightarrow> database" where
  \<comment> \<open>\<^verbatim>\<open>DROP TABLE IF EXISTS tasks\<close>\<close>
  "destroyDatabase d = None"

text \<open>The statements the source runs, each on the table as a list of rows.\<close>

definition select_where :: "(TaskRow \<Rightarrow> bool) \<Rightarrow> database \<Rightarrow> db_error + TaskRow list" where
  \<comment> \<open>\<^verbatim>\<open>db.getAllSync('SELECT * FROM tasks WHERE ...')\<close>\<close>
  "select_where p d = (case d of None \<Rightarrow> Inl NoSuchTable | Some rows \<Rightarrow> Inr (filter p rows))"

definition update_where_id :: "string \<Rightarrow> (TaskRow \<Rightarrow> TaskRow) \<Rightarrow> database \<Rightarrow> db_error + database" where
  \<comment> \<open>\<^verbatim>\<open>db.runSync('UPDATE tasks SET ... WHERE id = ?')\<close>\<close>
  "update_where_id i f d =
     (case d of None \<Rightarrow> Inl NoSuchTable
      | Some rows \<Rightarrow> Inr (Some (map (\<lambda>r. if id' r = i then f r else r) rows)))"

definition delete_where_id :: "string \<Rightarrow> database \<Rightarrow> db_error + (nat \<times> database)" where
  \<comment> \<open>\<^verbatim>\<open>db.runSync('DELETE FROM tasks WHERE id = ?')\<close>, with \<^verbatim>\<open>result.changes\<close>\<close>
  "delete_where_id i d =
     (case d of None \<Rightarrow> Inl NoSuchTable
      | Some rows \<Rightarrow>
          Inr (length (filter (\<lambda>r. id' r = i) rows), Some (filter (\<lambda>r. id' r \<noteq> i) rows)))"

definition insert_row :: "TaskRow \<Rightarrow> database \<Rightarrow> db_error + database" where
  \<comment> \<open>\<^verbatim>\<open>INSERT INTO tasks\<close>: the primary key rejects an id that is present\<close>
  "insert_row r d =
     (case d of None \<Rightarrow> Inl NoSuchTable
      | Some rows \<Rightarrow>
          if id' r \<in> set (map id' rows) then Inl UniqueConstraint else Inr (Some (rows @ [r])))"

definition insert_or_replace_row :: "TaskRow \<Rightarrow> database \<Rightarrow> db_error + database" where
  \<comment> \<open>\<^verbatim>\<open>INSERT OR REPLACE INTO tasks\<close>: the row of that id is deleted, the new one added\<close>
  "insert_or_replace_row r d =
     (case d of None \<Rightarrow> Inl NoSuchTable
      | Some rows \<Rightarrow> Inr (Some (filter (\<lambda>x. id' x \<noteq> id' r) rows @ [r])))"

section \<open>The local store (lib/tasks.ts)\<close>

definition getTaskById :: "string \<Rightarrow> database \<Rightarrow> db_error + Task option" where
  "getTaskById i d =
     (case select_where (\<lambda>r. id' r = i) d of
        Inl e \<Rightarrow> Inl e
      | Inr rows \<Rightarrow> Inr (case rows of [] \<Rightarrow> None | row # _ \<Rightarrow> Some (rowToTask row)))"

text \<open>
  The four queries catch the \<^verbatim>\<open>no such table\<close> error and return the empty list; any other
  error is thrown again. A \<^verbatim>\<open>SELECT\<close> of the model fails in no other way, so the result
  is always a list.
\<close>

definition query_or_empty :: "(TaskRow \<Rightarrow> bool) \<Rightarrow> database \<Rightarrow> Task list" where
  "query_or_empty p d =
     (case select_where p d of
        Inl e \<Rightarrow> []
      | Inr rows \<Rightarrow> map rowToTask rows)"

definition getAllTasks :: "database \<Rightarrow> Task list" where
  \<comment> \<open>\<^verbatim>\<open>WHERE locallyDeleted = 0 ORDER BY lastUpdatedAt DESC\<close>\<close>
  "getAllTasks d =
     (case select_where (\<lambda>r. locallyDeleted r = 0) d of
        Inl e \<Rightarrow> []
      | Inr rows \<Rightarrow> map rowToTask (sort_key (\<lambda>r. - lastUpdatedAt r) rows))"

definition getPendingSyncTasks :: "database \<Rightarrow> Task list" where
  "getPendingSyncTasks d = query_or_empty (\<lambda>r. syncStatus r = Sync_pending) d"

definition getLocallyCreatedTasks :: "database \<Rightarrow> Task list" where
  \<comment> \<open>\<^verbatim>\<open>WHERE locallyCreated = 1 AND locallyDeleted = 0\<close>\<close>
  "getLocallyCreatedTasks d =
     query_or_empty (\<lambda>r. locallyCreated r = 1 \<and> locallyDeleted r = 0) d"

definition getLocallyModifiedTasks :: "database \<Rightarrow> Task list" where
  \<comment> \<open>\<^verbatim>\<open>WHERE locallyModified = 1 AND locallyCreated = 0 AND locallyDeleted = 0\<close>\<close>
  "getLocallyModifiedTasks d =
     query_or_empty (\<lambda>r. locallyModified r = 1 \<and> locallyCreated r = 0 \<and> locallyDeleted r = 0) d"

definition getLocallyDeletedTasks :: "database \<Rightarrow> Task list" where
  \<comment> \<open>\<^verbatim>\<open>WHERE locallyDeleted = 1\<close>\<close>
  "getLocallyDeletedTasks d = query_or_empty (\<lambda>r. locallyDeleted r = 1) d"

text \<open>
  \<^verbatim>\<open>createTask\<close>: \<open>newId\<close> and \<open>now\<close> are what \<^verbatim>\<open>generateUUID()\<close> and \<^verbatim>\<open>Date.now()\<close>
  return. \<open>createTask_try\<close> is the body of the \<^verbatim>\<open>try\<close>; on a \<^verbatim>\<open>no such table\<close> error
  the source creates the table and calls itself again (the values drawn by the failed
  attempt were not stored). The result is \<^verbatim>\<open>task!\<close>, the row read back.
\<close>

definition createTask_try ::
  "string \<Rightarrow> int \<Rightarrow> CreateTaskInput \<Rightarrow> database \<Rightarrow> db_error + (Task option \<times> database)" where
  "createTask_try newId now input d =
     (case insert_row
             \<lparr> id' = newId,
               title = CreateTaskInput.title input,
               description = CreateTaskInput.description input,
               status = Status_pending,
               lastUpdatedAt = now,
               serverLastUpdatedAt = None,
               syncStatus = Sync_pending,
               locallyCreated = 1,
               locallyModified = 0,
               locallyDeleted = 0 \<rparr> d of
        Inl e \<Rightarrow> Inl e
      | Inr d' \<Rightarrow>
          (case getTaskById newId d' of
             Inl e \<Rightarrow> Inl e
           | Inr task \<Rightarrow> Inr (task, d')))"

function createTask ::
  "string \<Rightarrow> int \<Rightarrow> CreateTaskInput \<Rightarrow> database \<Rightarrow> db_error + (Task option \<times> database)" where
  "createTask newId now input d =
     (case createTask_try newId now input d of
        Inl e \<Rightarrow>
          if String_includes (db_error_message e) ''no such table''
          then createTask newId now input (initializeDatabase d)
          else Inl e
      | Inr r \<Rightarrow> Inr r)"
  by pat_completeness auto
termination createTask
proof (relation "measure (\<lambda>(newId, now, input, d). if d = None then 1 else 0)")
  show "wf (measure (\<lambda>(newId, now, input, d). if d = None then 1 else (0::nat)))"
    by simp
next
  fix newId :: string and now :: int and input :: CreateTaskInput and d :: database and e
  assume failed: "createTask_try newId now input d = Inl e"
    and caught: "String_includes (db_error_message e) ''no such table''"
  have "e = NoSuchTable"
    using caught by (cases e) simp_all
  with failed have "d = None"
    by (auto simp: createTask_try_def insert_row_def getTaskById_def select_where_def
             split: option.splits if_splits sum.splits)
  then show "((newId, now, input, initializeDatabase d), newId, now, input, d)
         \<in> measure (\<lambda>(newId, now, input, d). if d = None then 1 else 0)"
    by (simp add: initializeDatabase_def)
qed

declare createTask.simps [simp del]

text \<open>
  \<^verbatim>\<open>updateTask\<close> collects the assignments of its \<^verbatim>\<open>UPDATE\<close> in the list \<^verbatim>\<open>updates\<close>; here
  each assignment is a function on the row and the statement applies them in order.
  \<open>updateTask_fields\<close> is the list after the three tests of the input,
  \<open>updateTask_assignments\<close> the list the statement is built from.
\<close>

definition updateTask_fields :: "UpdateTaskInput \<Rightarrow> (TaskRow \<Rightarrow> TaskRow) list" where
  "updateTask_fields input =
       (case UpdateTaskInput.title input of
          None \<Rightarrow> [] | Some t \<Rightarrow> [\<lambda>r. r\<lparr>title := t\<rparr>])
     @ (case UpdateTaskInput.description input of
          None \<Rightarrow> [] | Some x \<Rightarrow> [\<lambda>r. r\<lparr>description := Some x\<rparr>])
     @ (case UpdateTaskInput.status input of
          None \<Rightarrow> [] | Some s \<Rightarrow> [\<lambda>r. r\<lparr>status := s\<rparr>])"

definition updateTask_assignments ::
  "UpdateTaskInput \<Rightarrow> int \<Rightarrow> Task \<Rightarrow> (TaskRow \<Rightarrow> TaskRow) list" where
  "updateTask_assignments input now existingTask =
     updateTask_fields input
     @ [\<lambda>r. r\<lparr>lastUpdatedAt := now\<rparr>]
     @ (if \<not> locallyCreated existingTask
        then [\<lambda>r. r\<lparr>locallyModified := 1\<rparr>, \<lambda>r. r\<lparr>syncStatus := Sync_pending\<rparr>]
        else [])"

definition updateTask ::
  "string \<Rightarrow> UpdateTaskInput \<Rightarrow> int \<Rightarrow> database \<Rightarrow> db_error + (Task option \<times> database)" where
  "updateTask i input now d =
     (case getTaskById i d of
        Inl e \<Rightarrow> Inl e
      | Inr None \<Rightarrow> Inr (None, d)
      | Inr (Some existingTask) \<Rightarrow>
          if length (updateTask_fields input) = 0 then Inr (Some existingTask, d)
          else
            (case update_where_id i
                    (\<lambda>r. fold (\<lambda>u. u) (updateTask_assignments input now existingTask) r) d of
               Inl e \<Rightarrow> Inl e
             | Inr d' \<Rightarrow>
                 (case getTaskById i d' of
                    Inl e \<Rightarrow> Inl e
                  | Inr task \<Rightarrow> Inr (task, d'))))"

definition deleteTask :: "string \<Rightarrow> int \<Rightarrow> database \<Rightarrow> db_error + (bool \<times> database)" where
  "deleteTask i now d =
     (case getTaskById i d of
        Inl e \<Rightarrow> Inl e
      | Inr None \<Rightarrow> Inr (False, d)
      | Inr (Some task) \<Rightarrow>
          if locallyCreated task
          then (case delete_where_id i d of
                  Inl e \<Rightarrow> Inl e
                | Inr (changes, d') \<Rightarrow> Inr (changes > 0, d'))
          else (case update_where_id i
                       (\<lambda>r. r\<lparr>locallyDeleted := 1, lastUpdatedAt := now,
                               syncStatus := Sync_pending\<rparr>) d of
                  Inl e \<Rightarrow> Inl e
                | Inr d' \<Rightarrow> Inr (True, d')))"

definition toggleTaskComplete ::
  "string \<Rightarrow> int \<Rightarrow> database \<Rightarrow> db_error + (Task option \<times> database)" where
  "toggleTaskComplete i now d =
     (case getTaskById i d of
        Inl e \<Rightarrow> Inl e
      | Inr None \<Rightarrow> Inr (None, d)
      | Inr (Some task) \<Rightarrow>
          (let newStatus = (if status task = Status_completed then Status_pending
                            else Status_completed)
           in updateTask i
                \<lparr> UpdateTaskInput.title = None, UpdateTaskInput.description = None,
                  UpdateTaskInput.status = Some newStatus \<rparr> now d))"

text \<open>
  \<^verbatim>\<open>markTaskAsSynced(id, serverTask?)\<close>: the optional argument carries one number, the
  server's \<^verbatim>\<open>lastUpdatedAt\<close>.
\<close>

definition markTaskAsSynced :: "string \<Rightarrow> int option \<Rightarrow> database \<Rightarrow> db_error + database" where
  "markTaskAsSynced i serverTask d =
     (let updates =
            [\<lambda>r::TaskRow. r\<lparr>syncStatus := Sync_synced\<rparr>,
             \<lambda>r. r\<lparr>locallyCreated := 0\<rparr>,
             \<lambda>r. r\<lparr>locallyModified := 0\<rparr>]
          @ (case serverTask of
               None \<Rightarrow> []
             | Some ts \<Rightarrow> [\<lambda>r. r\<lparr>lastUpdatedAt := ts\<rparr>, \<lambda>r. r\<lparr>serverLastUpdatedAt := Some ts\<rparr>])
      in update_where_id i (\<lambda>r. fold (\<lambda>u. u) updates r) d)"

definition removeSyncedDeletedTask :: "string \<Rightarrow> database \<Rightarrow> db_error + database" where
  "removeSyncedDeletedTask i d =
     (case delete_where_id i d of Inl e \<Rightarrow> Inl e | Inr (changes, d') \<Rightarrow> Inr d')"

definition upsertTaskFromServer :: "ServerTaskInput \<Rightarrow> database \<Rightarrow> db_error + database" where
  "upsertTaskFromServer serverTask d =
     insert_or_replace_row
       \<lparr> id' = ServerTaskInput.id' serverTask,
         title = ServerTaskInput.title serverTask,
         description = ServerTaskInput.description serverTask,
         status = ServerTaskInput.status serverTask,
         lastUpdatedAt = ServerTaskInput.lastUpdatedAt serverTask,
         serverLastUpdatedAt = Some (ServerTaskInput.lastUpdatedAt serverTask),
         syncStatus = Sync_synced,
         locallyCreated = 0,
         locallyModified = 0,
         locallyDeleted = 0 \<rparr> d"

definition markTaskAsConflict :: "string \<Rightarrow> database \<Rightarrow> db_error + database" where
  "markTaskAsConflict i d = update_where_id i (\<lambda>r. r\<lparr>syncStatus := Sync_conflict\<rparr>) d"

section \<open>The remote client as seen by the engine (lib/api.ts)\<close>

text \<open>
  Every call of the client either returns its payload or throws. The classes of
  \<^verbatim>\<open>lib/api.ts\<close> are the constructors, each with its \<^verbatim>\<open>message\<close>; \<open>OtherError\<close> is any
  other \<^verbatim>\<open>Error\<close> (for instance the \<^verbatim>\<open>TypeError\<close> of reading \<^verbatim>\<open>response.data\<close> after a
  204 answer).
\<close>

datatype api_error =
    UnauthorizedError string
  | NotFoundError string
  | ConflictError string ApiTask
  | ApiError int string
  | ServerError int string
  | NetworkError string
  | OtherError string

fun message :: "api_error \<Rightarrow> string" where
  "message (UnauthorizedError m) = m"
| "message (NotFoundError m) = m"
| "message (ConflictError m serverTask) = m"
| "message (ApiError statusCode m) = m"
| "message (ServerError statusCode m) = m"
| "message (NetworkError m) = m"
| "message (OtherError m) = m"

text \<open>
  The remote service is outside the program: it is a parameter, a state \<open>'sv\<close> of
  the service and one transition per operation, so that it may answer two equal
  requests differently. The trace \<open>requests\<close> of the world below records each call.
\<close>

datatype api_request =
    Req_fetchTasks
  | Req_createTask CreateTaskPayload
  | Req_updateTask string UpdateTaskPayload
  | Req_deleteTask string

record 'sv Api =
  api_fetchTasks :: "'sv \<Rightarrow> (api_error + ApiTask list) \<times> 'sv"
  api_createTask :: "CreateTaskPayload \<Rightarrow> 'sv \<Rightarrow> (api_error + ApiTask) \<times> 'sv"
  api_updateTask :: "string \<Rightarrow> UpdateTaskPayload \<Rightarrow> 'sv \<Rightarrow> (api_error + ApiTask) \<times> 'sv"
  api_deleteTask :: "string \<Rightarrow> 'sv \<Rightarrow> (api_error + unit) \<times> 'sv"

section \<open>The state of the sync engine (lib/sync.ts, lib/network.ts)\<close>

datatype SyncState = State_idle | State_syncing | State_error

datatype NetworkStatus = Net_online | Net_offline | Net_unknown

text \<open>
  The interface \<^verbatim>\<open>SyncStatus\<close> of \<^verbatim>\<open>lib/sync.ts\<close>, what a status listener receives (the
  name \<open>SyncStatus\<close> is taken by the union of \<^verbatim>\<open>types/task.ts\<close>).
\<close>

record SyncStatusReport =
  state :: SyncState
  lastSyncTime :: "int option"
  pendingChanges :: nat
  error :: "string option"
  isOnline :: bool

text \<open>
  The numbers the retry wrapper computes with are JavaScript numbers, IEEE doubles.
  The constants it reads are results of \<^verbatim>\<open>parseInt\<close>: \<^verbatim>\<open>NaN\<close> when the variable is missing
  or does not start with digits, an infinity when the digits exceed the range, and
  otherwise a double with an integer value; the attempt counts from 1. \<open>Num n\<close> is
  the double of value \<open>n\<close>. The sign of zero is not kept: \<^verbatim>\<open>-0\<close> compares, multiplies,
  prints (\<^verbatim>\<open>0\<close>) and sleeps as \<^verbatim>\<open>0\<close> does.
\<close>

datatype number = NaN | Num int | PosInfinity | NegInfinity

fun bit_length :: "nat \<Rightarrow> nat" where
  \<comment> \<open>the number of binary digits\<close>
  "bit_length n = (if n = 0 then 0 else Suc (bit_length (n div 2)))"

declare bit_length.simps [simp del]

text \<open>
  The double nearest to an integer, as an operation on doubles rounds its exact
  result: 53 binary digits are kept, a tie goes to the even neighbour, and a
  magnitude of \<open>2 ^ 1024\<close> or more after rounding is an infinity.
\<close>

definition to_double :: "int \<Rightarrow> number" where
  "to_double n =
     (let m = nat \<bar>n\<bar>;
          e = bit_length m - 53
      in if e = 0 then Num n
         else
           (let q = m div 2 ^ e;
                r = m mod 2 ^ e;
                q' = (if 2 * r > 2 ^ e \<or> (2 * r = 2 ^ e \<and> odd q) then q + 1 else q);
                v = int (q' * 2 ^ e)
            in if v \<ge> 2 ^ 1024 then (if n < 0 then NegInfinity else PosInfinity)
               else Num (if n < 0 then - v else v)))"

fun js_times :: "number \<Rightarrow> number \<Rightarrow> number" where
  \<comment> \<open>\<^verbatim>\<open>x * y\<close>\<close>
  "js_times NaN y = NaN"
| "js_times x NaN = NaN"
| "js_times (Num a) (Num b) = to_double (a * b)"
| "js_times (Num a) PosInfinity = (if a = 0 then NaN else if a > 0 then PosInfinity else NegInfinity)"
| "js_times (Num a) NegInfinity = (if a = 0 then NaN else if a > 0 then NegInfinity else PosInfinity)"
| "js_times PosInfinity (Num b) = (if b = 0 then NaN else if b > 0 then PosInfinity else NegInfinity)"
| "js_times NegInfinity (Num b) = (if b = 0 then NaN else if b > 0 then NegInfinity else PosInfinity)"
| "js_times PosInfinity PosInfinity = PosInfinity"
| "js_times PosInfinity NegInfinity = NegInfinity"
| "js_times NegInfinity PosInfinity = NegInfinity"
| "js_times NegInfinity NegInfinity = PosInfinity"

fun js_plus :: "number \<Rightarrow> number \<Rightarrow> number" where
  \<comment> \<open>\<^verbatim>\<open>x + y\<close>\<close>
  "js_plus NaN y = NaN"
| "js_plus x NaN = NaN"
| "js_plus (Num a) (Num b) = to_double (a + b)"
| "js_plus (Num a) y = y"
| "js_plus x (Num b) = x"
| "js_plus PosInfinity PosInfinity = PosInfinity"
| "js_plus NegInfinity NegInfinity = NegInfinity"
| "js_plus PosInfinity NegInfinity = NaN"
| "js_plus NegInfinity PosInfinity = NaN"

fun js_less :: "number \<Rightarrow> number \<Rightarrow> bool" where
  \<comment> \<open>\<^verbatim>\<open>x < y\<close>, false when either side is \<^verbatim>\<open>NaN\<close>\<close>
  "js_less NaN y = False"
| "js_less x NaN = False"
| "js_less (Num a) (Num b) = (a < b)"
| "js_less x PosInfinity = (x \<noteq> PosInfinity)"
| "js_less NegInfinity y = (y \<noteq> NegInfinity)"
| "js_less x y = False"

fun js_le :: "number \<Rightarrow> number \<Rightarrow> bool" where
  \<comment> \<open>\<^verbatim>\<open>x <= y\<close>, false when either side is \<^verbatim>\<open>NaN\<close>\<close>
  "js_le NaN y = False"
| "js_le x NaN = False"
| "js_le x y = (x = y \<or> js_less x y)"

text \<open>The two messages \<^verbatim>\<open>syncWithRetry\<close> writes to the console.\<close>

datatype retry_message =
    Retrying number "string option" number
  | GaveUp number "string option"

text \<open>
  The module variables of \<^verbatim>\<open>lib/sync.ts\<close>, the database, the connectivity status of
  \<^verbatim>\<open>lib/network.ts\<close>, the clock read by \<^verbatim>\<open>Date.now()\<close>, and the service. A listener is
  a callback of the user interface; it is known by a number, and what it was called
  with is recorded in \<open>statusDelivered\<close> and \<open>completeDelivered\<close>. \<open>sleeps\<close> records the
  delays \<^verbatim>\<open>sleep\<close> was called with. The passing of time is not modelled.
\<close>

record 'sv world =
  db :: database
  server :: 'sv
  requests :: "api_request list"
  netStatus :: NetworkStatus
  clock :: int
  syncState :: SyncState
  lastSyncTime :: "int option"
  lastError :: "string option"
  isSyncInProgress :: bool
  statusListeners :: "nat list"
  completeListeners :: "nat list"
  statusDelivered :: "(nat \<times> SyncStatusReport) list"
  completeDelivered :: "(nat \<times> bool \<times> string option) list"
  console :: "retry_message list"
  sleeps :: "number list"

text \<open>
  The constants read from the environment at load time (\<^verbatim>\<open>parseInt(process.env.X)\<close>)
  are parameters.
\<close>

record SyncConfig =
  SYNC_INTERVAL_MS :: number
  MAX_RETRY_ATTEMPTS :: number
  RETRY_DELAY_MS :: number
  ERROR_BACKOFF_MS :: number

definition isOnline :: "'sv world \<Rightarrow> bool" where
  "isOnline w = (netStatus w = Net_online)"

definition getPendingChangesCount :: "database \<Rightarrow> nat" where
  "getPendingChangesCount d =
     (let created = length (getLocallyCreatedTasks d);
          modified = length (getLocallyModifiedTasks d);
          deleted = length (getLocallyDeletedTasks d)
      in created + modified + deleted)"

definition getSyncStatus :: "'sv world \<Rightarrow> SyncStatusReport" where
  "getSyncStatus w =
     \<lparr> state = syncState w,
       SyncStatusReport.lastSyncTime = lastSyncTime w,
       pendingChanges = getPendingChangesCount (db w),
       error = lastError w,
       SyncStatusReport.isOnline = isOnline w \<rparr>"

definition notifyStatusListeners :: "'sv world \<Rightarrow> 'sv world" where
  "notifyStatusListeners w =
     w\<lparr>statusDelivered :=
         statusDelivered w @ map (\<lambda>listener. (listener, getSyncStatus w)) (statusListeners w)\<rparr>"

definition notifySyncComplete :: "bool \<Rightarrow> string option \<Rightarrow> 'sv world \<Rightarrow> 'sv world" where
  "notifySyncComplete success err w =
     w\<lparr>completeDelivered :=
         completeDelivered w @ map (\<lambda>listener. (listener, success, err)) (completeListeners w)\<rparr>"

text \<open>\<^verbatim>\<open>if (error)\<close>: an absent and an empty string are both falsy.\<close>

definition truthy :: "string option \<Rightarrow> bool" where
  "truthy s = (case s of None \<Rightarrow> False | Some x \<Rightarrow> x \<noteq> [])"

definition setSyncState :: "SyncState \<Rightarrow> string option \<Rightarrow> 'sv world \<Rightarrow> 'sv world" where
  "setSyncState st err w =
     (let w1 = w\<lparr>syncState := st\<rparr>;
          w2 = (if truthy err then w1\<lparr>lastError := err\<rparr>
                else if st = State_idle then w1\<lparr>lastError := None\<rparr>
                else w1)
      in notifyStatusListeners w2)"

definition sleep :: "number \<Rightarrow> 'sv world \<Rightarrow> 'sv world" where
  "sleep ms w = w\<lparr>sleeps := sleeps w @ [ms]\<rparr>"

section \<open>Calls of the remote client\<close>

definition call_fetchTasks :: "'sv Api \<Rightarrow> 'sv world \<Rightarrow> (api_error + ApiTask list) \<times> 'sv world" where
  "call_fetchTasks api w =
     (case api_fetchTasks api (server w) of
        (res, sv) \<Rightarrow> (res, w\<lparr>server := sv, requests := requests w @ [Req_fetchTasks]\<rparr>))"

definition call_createTask ::
  "'sv Api \<Rightarrow> CreateTaskPayload \<Rightarrow> 'sv world \<Rightarrow> (api_error + ApiTask) \<times> 'sv world" where
  "call_createTask api payload w =
     (case api_createTask api payload (server w) of
        (res, sv) \<Rightarrow> (res, w\<lparr>server := sv, requests := requests w @ [Req_createTask payload]\<rparr>))"

definition call_updateTask ::
  "'sv Api \<Rightarrow> string \<Rightarrow> UpdateTaskPayload \<Rightarrow> 'sv world \<Rightarrow> (api_error + ApiTask) \<times> 'sv world" where
  "call_updateTask api i payload w =
     (case api_updateTask api i payload (server w) of
        (res, sv) \<Rightarrow> (res, w\<lparr>server := sv, requests := requests w @ [Req_updateTask i payload]\<rparr>))"

definition call_deleteTask :: "'sv Api \<Rightarrow> string \<Rightarrow> 'sv world \<Rightarrow> (api_error + unit) \<times> 'sv world" where
  "call_deleteTask api i w =
     (case api_deleteTask api i (server w) of
        (res, sv) \<Rightarrow> (res, w\<lparr>server := sv, requests := requests w @ [Req_deleteTask i]\<rparr>))"

text \<open>
  A statement of the store run by the engine: the database is replaced when the
  statement succeeds; when it throws, the database is as before and the error is
  returned beside the world (\<open>Some e\<close>: \<open>e\<close> was thrown).
\<close>

definition run_store :: "(database \<Rightarrow> db_error + database) \<Rightarrow> 'sv world \<Rightarrow> 'sv world \<times> db_error option" where
  "run_store stmt w =
     (case stmt (db w) of
        Inl e \<Rightarrow> (w, Some e)
      | Inr d \<Rightarrow> (w\<lparr>db := d\<rparr>, None))"

text \<open>\<^verbatim>\<open>for (const x of xs) body\<close>, left at the first iteration that throws.\<close>

fun for_of :: "('a \<Rightarrow> 's \<Rightarrow> 's \<times> db_error option) \<Rightarrow> 'a list \<Rightarrow> 's \<Rightarrow> 's \<times> db_error option" where
  "for_of body [] s = (s, None)"
| "for_of body (x # xs) s =
     (case body x s of
        (s', Some e) \<Rightarrow> (s', Some e)
      | (s', None) \<Rightarrow> for_of body xs s')"

section \<open>Push phase and conflict resolution (lib/sync.ts)\<close>

definition quoted :: "string \<Rightarrow> string" where
  \<comment> \<open>the text between double quotes, as the template strings of the source write it\<close>
  "quoted s = [CHR 0x22] @ s @ [CHR 0x22]"

text \<open>
  The body of the loop over \<^verbatim>\<open>createdTasks\<close>. The state of the loop is the world and
  the list \<^verbatim>\<open>errors\<close>. Everything the \<^verbatim>\<open>try\<close> throws is caught.
\<close>

definition pushCreatedTask :: "'sv Api \<Rightarrow> Task \<Rightarrow> 'sv world \<times> string list \<Rightarrow> 'sv world \<times> string list" where
  "pushCreatedTask api task = (\<lambda>(w, errors).
     case call_createTask api
            \<lparr> CreateTaskPayload.title = title task,
              CreateTaskPayload.description = description task,
              CreateTaskPayload.status = status task,
              CreateTaskPayload.lastUpdatedAt = lastUpdatedAt task \<rparr> w of
       (Inl e, w1) \<Rightarrow>
         (w1, errors @ [''Failed to create task '' @ quoted (title task) @ '': '' @ message e])
     | (Inr serverTask, w1) \<Rightarrow>
         (case run_store (markTaskAsSynced (id' task) (Some (ApiTask.lastUpdatedAt serverTask))) w1 of
            (w2, None) \<Rightarrow> (w2, errors)
          | (w2, Some e) \<Rightarrow>
              (w2, errors @ [''Failed to create task '' @ quoted (title task) @ '': ''
                               @ db_error_message e])))"

text \<open>
  \<^verbatim>\<open>handleConflict\<close>. The \<^verbatim>\<open>catch\<close> of the first branch catches a failed request and a
  failed \<^verbatim>\<open>markTaskAsSynced\<close> alike; what \<^verbatim>\<open>markTaskAsConflict\<close> or
  \<^verbatim>\<open>upsertTaskFromServer\<close> throw leaves the function.
\<close>

definition handleConflict :: "'sv Api \<Rightarrow> Task \<Rightarrow> ApiTask \<Rightarrow> 'sv world \<Rightarrow> 'sv world \<times> db_error option" where
  "handleConflict api localTask serverTask w =
     (if lastUpdatedAt localTask > ApiTask.lastUpdatedAt serverTask
      then
        (case call_updateTask api (id' localTask)
                \<lparr> UpdateTaskPayload.title = Some (title localTask),
                  UpdateTaskPayload.description = description localTask,
                  UpdateTaskPayload.status = Some (status localTask),
                  UpdateTaskPayload.lastUpdatedAt = Some (ApiTask.lastUpdatedAt serverTask) \<rparr> w of
           (Inl e, w1) \<Rightarrow> run_store (markTaskAsConflict (id' localTask)) w1
         | (Inr updatedTask, w1) \<Rightarrow>
             (case run_store (markTaskAsSynced (id' localTask)
                                (Some (ApiTask.lastUpdatedAt updatedTask))) w1 of
                (w2, None) \<Rightarrow> (w2, None)
              | (w2, Some e) \<Rightarrow> run_store (markTaskAsConflict (id' localTask)) w2))
      else
        run_store (upsertTaskFromServer
                     \<lparr> ServerTaskInput.id' = ApiTask.id' serverTask,
                       ServerTaskInput.title = ApiTask.title serverTask,
                       ServerTaskInput.description = ApiTask.description serverTask,
                       ServerTaskInput.status = ApiTask.status serverTask,
                       ServerTaskInput.lastUpdatedAt = ApiTask.lastUpdatedAt serverTask \<rparr>) w)"

text \<open>
  The body of the loop over \<^verbatim>\<open>modifiedTasks\<close>. In the \<^verbatim>\<open>catch\<close>, \<^verbatim>\<open>handleConflict\<close> and
  \<^verbatim>\<open>markTaskAsConflict\<close> are outside every \<^verbatim>\<open>try\<close>: what they throw leaves the loop.
\<close>

definition pushModifiedTask ::
  "'sv Api \<Rightarrow> Task \<Rightarrow> 'sv world \<times> string list \<Rightarrow> ('sv world \<times> string list) \<times> db_error option" where
  "pushModifiedTask api task = (\<lambda>(w, errors).
     case call_updateTask api (id' task)
            \<lparr> UpdateTaskPayload.title = Some (title task),
              UpdateTaskPayload.description = description task,
              UpdateTaskPayload.status = Some (status task),
              UpdateTaskPayload.lastUpdatedAt =
                Some (case serverLastUpdatedAt task of
                        Some base \<Rightarrow> base
                      | None \<Rightarrow> lastUpdatedAt task) \<rparr> w of
       (Inr serverTask, w1) \<Rightarrow>
         (case run_store (markTaskAsSynced (id' task) (Some (ApiTask.lastUpdatedAt serverTask))) w1 of
            (w2, None) \<Rightarrow> ((w2, errors), None)
          | (w2, Some e) \<Rightarrow>
              ((w2, errors @ [''Failed to update task '' @ quoted (title task) @ '': ''
                                @ db_error_message e]), None))
     | (Inl e, w1) \<Rightarrow>
         (case e of
            ConflictError m serverTask \<Rightarrow>
              (case handleConflict api task serverTask w1 of
                 (w2, thrown) \<Rightarrow> ((w2, errors), thrown))
          | NotFoundError m \<Rightarrow>
              (case run_store (markTaskAsConflict (id' task)) w1 of
                 (w2, Some e') \<Rightarrow> ((w2, errors), Some e')
               | (w2, None) \<Rightarrow>
                   ((w2, errors @ [''Task '' @ quoted (title task) @ '' was deleted on server'']),
                    None))
          | _ \<Rightarrow>
              ((w1, errors @ [''Failed to update task '' @ quoted (title task) @ '': ''
                                @ message e]), None)))"

definition pushDeletedTask ::
  "'sv Api \<Rightarrow> Task \<Rightarrow> 'sv world \<times> string list \<Rightarrow> ('sv world \<times> string list) \<times> db_error option" where
  "pushDeletedTask api task = (\<lambda>(w, errors).
     case call_deleteTask api (id' task) w of
       (Inr u, w1) \<Rightarrow>
         (case run_store (removeSyncedDeletedTask (id' task)) w1 of
            (w2, None) \<Rightarrow> ((w2, errors), None)
          | (w2, Some e) \<Rightarrow>
              ((w2, errors @ [''Failed to delete task '' @ quoted (title task) @ '': ''
                                @ db_error_message e]), None))
     | (Inl e, w1) \<Rightarrow>
         (case e of
            NotFoundError m \<Rightarrow>
              (case run_store (removeSyncedDeletedTask (id' task)) w1 of
                 (w2, thrown) \<Rightarrow> ((w2, errors), thrown))
          | _ \<Rightarrow>
              ((w1, errors @ [''Failed to delete task '' @ quoted (title task) @ '': ''
                                @ message e]), None)))"

text \<open>
  \<^verbatim>\<open>pushChanges\<close> returns \<^verbatim>\<open>{ success, errors }\<close>, here a pair, or throws (\<open>Inl\<close>); the
  world is returned in both cases. Each of the three queries is read when its loop
  starts, after the loops before it. The source wraps each query in a \<^verbatim>\<open>try\<close> whose
  \<^verbatim>\<open>catch\<close> handles \<^verbatim>\<open>no such table\<close>; the queries of \<^verbatim>\<open>lib/tasks.ts\<close> return the empty
  list in that case themselves and throw nothing else here, so the \<^verbatim>\<open>catch\<close> is not
  entered.
\<close>

definition pushChanges :: "'sv Api \<Rightarrow> 'sv world \<Rightarrow> 'sv world \<times> (db_error + bool \<times> string list)" where
  "pushChanges api w =
     (let createdTasks = getLocallyCreatedTasks (db w);
          (w1, errors1) = fold (pushCreatedTask api) createdTasks (w, []);
          modifiedTasks = getLocallyModifiedTasks (db w1)
      in case for_of (pushModifiedTask api) modifiedTasks (w1, errors1) of
           ((w2, errors2), Some e) \<Rightarrow> (w2, Inl e)
         | ((w2, errors2), None) \<Rightarrow>
             (let deletedTasks = getLocallyDeletedTasks (db w2)
              in case for_of (pushDeletedTask api) deletedTasks (w2, errors2) of
                   ((w3, errors3), Some e) \<Rightarrow> (w3, Inl e)
                 | ((w3, errors3), None) \<Rightarrow> (w3, Inr (length errors3 = 0, errors3))))"

section \<open>Pull phase (lib/sync.ts)\<close>

definition localPendingTasks :: "database \<Rightarrow> Task list" where
  "localPendingTasks d =
     getLocallyCreatedTasks d @ getLocallyModifiedTasks d @ getLocallyDeletedTasks d"

definition localPendingIds :: "database \<Rightarrow> string set" where
  \<comment> \<open>\<^verbatim>\<open>new Set(localPendingTasks.map((t) => t.id))\<close>\<close>
  "localPendingIds d = set (map id' (localPendingTasks d))"

definition serverTaskMap :: "ApiTask list \<Rightarrow> string \<rightharpoonup> ApiTask" where
  \<comment> \<open>\<^verbatim>\<open>new Map(serverTasks.map((t) => [t.id, t]))\<close>: a later entry of an id replaces an earlier one\<close>
  "serverTaskMap serverTasks = map_of (rev (map (\<lambda>t. (ApiTask.id' t, t)) serverTasks))"

definition upsertUnlessPending :: "string set \<Rightarrow> ApiTask \<Rightarrow> 'sv world \<Rightarrow> 'sv world \<times> db_error option" where
  \<comment> \<open>the body of the loop over \<^verbatim>\<open>serverTasks\<close>\<close>
  "upsertUnlessPending pendingIds serverTask w =
     (if ApiTask.id' serverTask \<in> pendingIds then (w, None)
      else run_store (upsertTaskFromServer
                        \<lparr> ServerTaskInput.id' = ApiTask.id' serverTask,
                          ServerTaskInput.title = ApiTask.title serverTask,
                          ServerTaskInput.description = ApiTask.description serverTask,
                          ServerTaskInput.status = ApiTask.status serverTask,
                          ServerTaskInput.lastUpdatedAt = ApiTask.lastUpdatedAt serverTask \<rparr>) w)"

definition removeIfAbsent :: "(string \<rightharpoonup> ApiTask) \<Rightarrow> Task \<Rightarrow> 'sv world \<Rightarrow> 'sv world \<times> db_error option" where
  \<comment> \<open>the body of the loop over \<^verbatim>\<open>syncedLocalTasks\<close>\<close>
  "removeIfAbsent serverMap localTask w =
     (if serverMap (id' localTask) = None
      then run_store (removeSyncedDeletedTask (id' localTask)) w
      else (w, None))"

definition suspicious_check :: "ApiTask list \<Rightarrow> bool" where
  \<comment> \<open>\<^verbatim>\<open>serverTasks.length > 0 || !serverTasks.some((t) => t.id.includes('undefined'))\<close>\<close>
  "suspicious_check serverTasks =
     (length serverTasks > 0
      \<or> \<not> list_ex (\<lambda>t. String_includes (ApiTask.id' t) ''undefined'') serverTasks)"

text \<open>
  \<^verbatim>\<open>pullChanges\<close> returns \<^verbatim>\<open>{ success, error? }\<close>, here a pair; its outer \<^verbatim>\<open>catch\<close> turns
  every error into \<^verbatim>\<open>{ success: false, error: msg }\<close>. \<^verbatim>\<open>getAllTasks\<close> and the three
  queries do not throw, so the inner handlers around them are never entered. The
  \<^verbatim>\<open>else\<close> branch is the one that warns
  \<^verbatim>\<open>Skipping deletion logic due to suspicious server response\<close> and changes nothing.
\<close>

definition pullChanges :: "'sv Api \<Rightarrow> 'sv world \<Rightarrow> (bool \<times> string option) \<times> 'sv world" where
  "pullChanges api w =
     (case call_fetchTasks api w of
        (Inl e, w1) \<Rightarrow> ((False, Some (message e)), w1)
      | (Inr serverTasks, w1) \<Rightarrow>
          (let localTasks = getAllTasks (db w1);
               pendingIds = localPendingIds (db w1);
               serverMap = serverTaskMap serverTasks
           in if suspicious_check serverTasks
              then
                (case for_of (upsertUnlessPending pendingIds) serverTasks w1 of
                   (w2, Some e) \<Rightarrow> ((False, Some (db_error_message e)), w2)
                 | (w2, None) \<Rightarrow>
                     (let syncedLocalTasks =
                            filter (\<lambda>task. id' task \<notin> pendingIds \<and> \<not> locallyCreated task)
                              localTasks
                      in case for_of (removeIfAbsent serverMap) syncedLocalTasks w2 of
                           (w3, Some e) \<Rightarrow> ((False, Some (db_error_message e)), w3)
                         | (w3, None) \<Rightarrow> ((True, None), w3)))
              else ((True, None), w1)))"

section \<open>The sync cycle and the retry wrapper (lib/sync.ts)\<close>

fun join :: "string \<Rightarrow> string list \<Rightarrow> string" where
  \<comment> \<open>\<^verbatim>\<open>xs.join(sep)\<close>\<close>
  "join sep [] = []"
| "join sep [x] = x"
| "join sep (x # y # ys) = x @ sep @ join sep (y # ys)"

definition finish_sync :: "'sv world \<Rightarrow> 'sv world" where
  \<comment> \<open>the \<^verbatim>\<open>finally\<close> block of \<^verbatim>\<open>sync\<close>\<close>
  "finish_sync w = notifyStatusListeners (w\<lparr>isSyncInProgress := False\<rparr>)"

definition sync :: "'sv Api \<Rightarrow> 'sv world \<Rightarrow> bool \<times> 'sv world" where
  "sync api w =
     (if isSyncInProgress w then (False, w)
      else if \<not> isOnline w then (False, notifyStatusListeners w)
      else
        (let w1 = setSyncState State_syncing None (w\<lparr>isSyncInProgress := True\<rparr>)
         in case pushChanges api w1 of
              (w2, Inl e) \<Rightarrow>
                (let msg = db_error_message e;
                     w3 = setSyncState State_error (Some msg) w2;
                     w4 = notifySyncComplete False (Some msg) w3
                 in (False, finish_sync w4))
            | (w2, Inr (pushSuccess, pushErrors)) \<Rightarrow>
                (case pullChanges api w2 of
                   ((pullSuccess, pullError), w3) \<Rightarrow>
                     if pushSuccess \<and> pullSuccess
                     then
                       (let w4 = w3\<lparr>lastSyncTime := Some (clock w3)\<rparr>;
                            w5 = setSyncState State_idle None w4;
                            w6 = notifySyncComplete True None w5
                        in (True, finish_sync w6))
                     else
                       (let errorMsg =
                              join ''; ''
                                (filter (\<lambda>m. m \<noteq> [])
                                   (pushErrors
                                    @ [case pullError of
                                         None \<Rightarrow> []
                                       | Some m \<Rightarrow>
                                           if m \<noteq> [] then ''Pull failed: '' @ m else []]));
                            w4 = setSyncState State_error (Some errorMsg) w3;
                            w5 = notifySyncComplete False (Some errorMsg) w4
                        in (False, finish_sync w5)))))"

text \<open>
  \<^verbatim>\<open>syncWithRetry\<close>: the \<^verbatim>\<open>for\<close> loop from \<open>attempt\<close> on, with the local variable
  \<^verbatim>\<open>lastError\<close> as \<open>lastErr\<close>. The counter is a double: \<^verbatim>\<open>attempt++\<close> no longer
  changes it at \<open>2 ^ 53\<close>, and the loop has no other exit than a successful cycle when
  \<^verbatim>\<open>maxAttempts\<close> is that large or infinite. The result is \<open>None\<close> when the loop does not
  end.
\<close>

definition indicates_auth_failure :: "string option \<Rightarrow> bool" where
  \<comment> \<open>\<^verbatim>\<open>lastError?.includes('Unauthorized')\<close>, falsy on \<^verbatim>\<open>null\<close>\<close>
  "indicates_auth_failure lastErr =
     (case lastErr of None \<Rightarrow> False | Some m \<Rightarrow> String_includes m ''Unauthorized'')"

definition retry_delay :: "SyncConfig \<Rightarrow> string option \<Rightarrow> number \<Rightarrow> number" where
  \<comment> \<open>\<^verbatim>\<open>lastError?.includes('Unauthorized') ? ERROR_BACKOFF_MS : RETRY_DELAY_MS * attempt\<close>\<close>
  "retry_delay cfg lastErr attempt =
     (if indicates_auth_failure lastErr
      then ERROR_BACKOFF_MS cfg
      else js_times (RETRY_DELAY_MS cfg) attempt)"

partial_function (option) syncWithRetry_from ::
  "SyncConfig \<Rightarrow> 'sv Api \<Rightarrow> number \<Rightarrow> number \<Rightarrow> string option \<Rightarrow> 'sv world
     \<Rightarrow> (bool \<times> 'sv world) option" where
  "syncWithRetry_from cfg api maxAttempts attempt lastErr w =
     (if js_le attempt maxAttempts
      then
        (case sync api w of
           (success, w1) \<Rightarrow>
             if success then Some (True, w1)
             else
               (let lastErr' = SyncStatusReport.error (getSyncStatus w1)
                in if js_less attempt maxAttempts
                   then
                     (let delay = retry_delay cfg lastErr' attempt;
                          w2 = w1\<lparr>console := console w1 @ [Retrying attempt lastErr' delay]\<rparr>;
                          w3 = sleep delay w2
                      in syncWithRetry_from cfg api maxAttempts (js_plus attempt (Num 1)) lastErr' w3)
                   else syncWithRetry_from cfg api maxAttempts (js_plus attempt (Num 1)) lastErr' w1))
      else Some (False, w\<lparr>console := console w @ [GaveUp maxAttempts lastErr]\<rparr>))"

text \<open>
  The parameter \<^verbatim>\<open>maxAttempts\<close> has the default \<^verbatim>\<open>MAX_RETRY_ATTEMPTS\<close>: \<open>None\<close> is the
  call without argument.
\<close>

definition syncWithRetry ::
  "SyncConfig \<Rightarrow> 'sv Api \<Rightarrow> number option \<Rightarrow> 'sv world \<Rightarrow> (bool \<times> 'sv world) option" where
  "syncWithRetry cfg api maxAttempts w =
     syncWithRetry_from cfg api
       (case maxAttempts of None \<Rightarrow> MAX_RETRY_ATTEMPTS cfg | Some m \<Rightarrow> m) (Num 1) None w"

definition syncNow :: "SyncConfig \<Rightarrow> 'sv Api \<Rightarrow> 'sv world \<Rightarrow> (bool \<times> 'sv world) option" where
  "syncNow cfg api w = syncWithRetry cfg api (Some (Num 1)) w"

definition isSyncing :: "'sv world \<Rightarrow> bool" where
  "isSyncing w = isSyncInProgress w"

section \<open>What the retry wrapper leaves behind\<close>

text \<open>
  The console messages and the delays of \<^verbatim>\<open>syncWithRetry\<close>, the two parts of the world
  that only the wrapper writes.
\<close>

definition retry_trace :: "'sv world \<Rightarrow> retry_message list \<times> number list" where
  "retry_trace w = (console w, sleeps w)"

section \<open>Reachable states of the local store\<close>

text \<open>
  The states of the database that the operations of \<^verbatim>\<open>lib/db.ts\<close> and \<^verbatim>\<open>lib/tasks.ts\<close>
  produce from the state of a fresh installation, where the table does not exist. An
  operation that throws leaves the state as it was.
\<close>

definition primary_key :: "database \<Rightarrow> bool" where
  "primary_key d = (case d of None \<Rightarrow> True | Some rows \<Rightarrow> distinct (map id' rows))"

definition row_flags_ok :: "TaskRow \<Rightarrow> bool" where
  "row_flags_ok r =
     (locallyCreated r \<in> {0, 1} \<and> locallyModified r \<in> {0, 1} \<and> locallyDeleted r \<in> {0, 1}
      \<and> (locallyCreated r = 1 \<longrightarrow> locallyModified r = 0 \<and> locallyDeleted r = 0))"

text \<open>
  The invariant of the reachable states: ids are unique (the primary key), every flag
  is 0 or 1, and a locally created row is neither modified nor deleted.
\<close>

definition store_invariant :: "database \<Rightarrow> bool" where
  "store_invariant d =
     (case d of
        None \<Rightarrow> True
      | Some rows \<Rightarrow> distinct (map id' rows) \<and> (\<forall>r \<in> set rows. row_flags_ok r))"

inductive reachable :: "database \<Rightarrow> bool" where
  reach_initial: "reachable None"
| reach_initializeDatabase: "reachable d \<Longrightarrow> reachable (initializeDatabase d)"
| reach_destroyDatabase: "reachable d \<Longrightarrow> reachable (destroyDatabase d)"
| reach_createTask:
    "reachable d \<Longrightarrow> createTask newId now input d = Inr (t, d') \<Longrightarrow> reachable d'"
| reach_updateTask:
    "reachable d \<Longrightarrow> updateTask i upd now d = Inr (t, d') \<Longrightarrow> reachable d'"
| reach_deleteTask:
    "reachable d \<Longrightarrow> deleteTask i now d = Inr (b, d') \<Longrightarrow> reachable d'"
| reach_toggleTaskComplete:
    "reachable d \<Longrightarrow> toggleTaskComplete i now d = Inr (t, d') \<Longrightarrow> reachable d'"
| reach_markTaskAsSynced:
    "reachable d \<Longrightarrow> markTaskAsSynced i serverTask d = Inr d' \<Longrightarrow> reachable d'"
| reach_removeSyncedDeletedTask:
    "reachable d \<Longrightarrow> removeSyncedDeletedTask i d = Inr d' \<Longrightarrow> reachable d'"
| reach_upsertTaskFromServer:
    "reachable d \<Longrightarrow> upsertTaskFromServer s d = Inr d' \<Longrightarrow> reachable d'"
| reach_markTaskAsConflict:
    "reachable d \<Longrightarrow> markTaskAsConflict i d = Inr d' \<Longrightarrow> reachable d'"

section \<open>The batches of the push phase\<close>

text \<open>
  The ids of a batch, and the relation between two states of the database under which
  the primary key is kept and the ids of the modified and of the deleted batch do not
  grow. The statements of the first two loops of \<^verbatim>\<open>pushChanges\<close> are in this relation.
\<close>

definition batch_ids :: "Task list \<Rightarrow> string set" where
  "batch_ids tasks = set (map id' tasks)"

definition shrinks :: "database \<Rightarrow> database \<Rightarrow> bool" where
  "shrinks d d' =
     ((primary_key d \<longrightarrow> primary_key d')
      \<and> batch_ids (getLocallyModifiedTasks d') \<subseteq> batch_ids (getLocallyModifiedTasks d)
      \<and> batch_ids (getLocallyDeletedTasks d') \<subseteq> batch_ids (getLocallyDeletedTasks d))"

section \<open>Example states\<close>

text \<open>
  Concrete inputs for the closed theorems below: a service that gives the same four
  answers whatever it is asked, a world around a database, and a row with a title, its
  two timestamps, its sync status and its three flags.
\<close>

definition const_api ::
  "(api_error + ApiTask list) \<Rightarrow> (api_error + ApiTask) \<Rightarrow> (api_error + ApiTask)
     \<Rightarrow> (api_error + unit) \<Rightarrow> unit Api" where
  "const_api fetched created updated deleted =
     \<lparr> api_fetchTasks = (\<lambda>sv. (fetched, sv)),
       api_createTask = (\<lambda>payload sv. (created, sv)),
       api_updateTask = (\<lambda>i payload sv. (updated, sv)),
       api_deleteTask = (\<lambda>i sv. (deleted, sv)) \<rparr>"

definition world_of :: "database \<Rightarrow> NetworkStatus \<Rightarrow> bool \<Rightarrow> unit world" where
  "world_of d net busy =
     \<lparr> db = d, server = (), requests = [], netStatus = net, clock = 1000,
       syncState = State_idle, lastSyncTime = None, lastError = None,
       isSyncInProgress = busy, statusListeners = [0], completeListeners = [0],
       statusDelivered = [], completeDelivered = [], console = [], sleeps = [] \<rparr>"

definition row_of ::
  "string \<Rightarrow> string \<Rightarrow> int \<Rightarrow> int option \<Rightarrow> SyncStatus \<Rightarrow> int \<Rightarrow> int \<Rightarrow> int \<Rightarrow> TaskRow" where
  "row_of i t ts base st c m dl =
     \<lparr> id' = i, title = t, description = None, status = Status_pending, lastUpdatedAt = ts,
       serverLastUpdatedAt = base, syncStatus = st,
       locallyCreated = c, locallyModified = m, locallyDeleted = dl \<rparr>"

definition ghost_task :: ApiTask where
  "ghost_task =
     \<lparr> ApiTask.id' = ''undefined'', userId = ''u1'', ApiTask.title = ''Ghost'',
       ApiTask.description = None, ApiTask.status = Status_pending,
       ApiTask.lastUpdatedAt = 70 \<rparr>"


definition local_edit :: "int \<Rightarrow> SyncStatus \<Rightarrow> TaskRow" where
  "local_edit ts st = row_of ''t1'' ''Local title'' ts (Some 100) st 0 1 0"

definition server_version :: "int \<Rightarrow> ApiTask" where
  "server_version ts =
     \<lparr> ApiTask.id' = ''t1'', userId = ''u1'', ApiTask.title = ''Server title'',
       ApiTask.description = None, ApiTask.status = Status_completed,
       ApiTask.lastUpdatedAt = ts \<rparr>"


definition update_request :: "int \<Rightarrow> api_request" where
  "update_request base =
     Req_updateTask ''t1''
       \<lparr> UpdateTaskPayload.title = Some ''Local title'', UpdateTaskPayload.description = None,
         UpdateTaskPayload.status = Some Status_pending,
         UpdateTaskPayload.lastUpdatedAt = Some base \<rparr>"

definition quiet_world :: "database \<Rightarrow> unit world" where
  "quiet_world d = (world_of d Net_online False)\<lparr>statusListeners := [], completeListeners := []\<rparr>"


definition accepting_api :: "int \<Rightarrow> unit Api" where
  \<comment> \<open>every update is accepted and stamped with the given time\<close>
  "accepting_api ts =
     const_api (Inr []) (Inl (NetworkError ''down''))
       (Inr \<lparr> ApiTask.id' = ''t1'', userId = ''u1'', ApiTask.title = ''Local title'',
              ApiTask.description = None, ApiTask.status = Status_pending,
              ApiTask.lastUpdatedAt = ts \<rparr>) (Inr ())"





definition failed_cycle :: "api_request list \<Rightarrow> string \<Rightarrow> unit world \<Rightarrow> unit world" where
  "failed_cycle sent msg w =
     w\<lparr>requests := requests w @ sent, syncState := State_error, lastError := Some msg\<rparr>"

definition retried :: "int \<Rightarrow> string \<Rightarrow> number \<Rightarrow> unit world \<Rightarrow> unit world" where
  "retried k msg d w =
     w\<lparr>console := console w @ [Retrying (Num k) (Some msg) d], sleeps := sleeps w @ [d]\<rparr>"

definition idle_quiet :: "database \<Rightarrow> unit world \<Rightarrow> bool" where
  "idle_quiet d w =
     (\<not> isSyncInProgress w \<and> netStatus w = Net_online \<and> statusListeners w = []
      \<and> completeListeners w = [] \<and> db w = d)"




section \<open>Properties of the local store\<close>

lemmas store_simps =
  select_where_def update_where_id_def delete_where_id_def insert_row_def
  insert_or_replace_row_def getTaskById_def query_or_empty_def getAllTasks_def
  getLocallyCreatedTasks_def getLocallyModifiedTasks_def getLocallyDeletedTasks_def
  markTaskAsSynced_def removeSyncedDeletedTask_def upsertTaskFromServer_def
  markTaskAsConflict_def rowToTask_def

lemmas engine_simps =
  call_fetchTasks_def call_createTask_def call_updateTask_def call_deleteTask_def
  run_store_def const_api_def world_of_def


lemma id_rowToTask [simp]: "id' (rowToTask r) = id' r"
  by (simp add: rowToTask_def)

text \<open>
  C1, as the code has it. For a record \<open>t\<close> of the store with id \<open>i\<close>,
  \<^verbatim>\<open>markTaskAsSynced(i, serverTask)\<close> succeeds and the record read back has
  \<open>locallyCreated\<close> and \<open>locallyModified\<close> false and \<open>syncStatus = synced\<close>; the
  statement does not assign \<open>locallyDeleted\<close>, which keeps the value it had. So all
  three flags are false afterwards exactly when the record was not soft-deleted.
\<close>

theorem markTaskAsSynced_clears_created_modified:
  assumes "getTaskById i d = Inr (Some t)"
  shows "\<exists>d' t'. markTaskAsSynced i serverTask d = Inr d'
           \<and> getTaskById i d' = Inr (Some t')
           \<and> \<not> locallyCreated t' \<and> \<not> locallyModified t'
           \<and> syncStatus t' = Sync_synced
           \<and> locallyDeleted t' = locallyDeleted t"
proof -
  from assms obtain rows where d: "d = Some rows"
    by (cases d) (auto simp: getTaskById_def select_where_def)
  from assms d obtain r rest
    where f: "filter (\<lambda>r. id' r = i) rows = r # rest" and t: "t = rowToTask r"
    by (auto simp: getTaskById_def select_where_def split: list.splits)
  have "r \<in> set (filter (\<lambda>r. id' r = i) rows)"
    by (simp add: f)
  then have ri: "id' r = i"
    by simp
  show ?thesis
    using f t ri
    by (cases serverTask)
       (auto simp: d markTaskAsSynced_def update_where_id_def getTaskById_def select_where_def
          filter_map comp_def rowToTask_def split: list.splits)
qed

theorem markTaskAsSynced_clears_created_modified_witness:
  "getTaskById ''t1'' (Some [row_of ''t1'' ''Buy milk'' 100 None Sync_pending 1 0 0])
     = Inr (Some (rowToTask (row_of ''t1'' ''Buy milk'' 100 None Sync_pending 1 0 0)))
   \<and> (\<exists>d' t'. markTaskAsSynced ''t1'' (Some 500)
                 (Some [row_of ''t1'' ''Buy milk'' 100 None Sync_pending 1 0 0]) = Inr d'
           \<and> getTaskById ''t1'' d' = Inr (Some t')
           \<and> \<not> locallyCreated t' \<and> \<not> locallyModified t'
           \<and> syncStatus t' = Sync_synced
           \<and> locallyDeleted t'
               = locallyDeleted (rowToTask (row_of ''t1'' ''Buy milk'' 100 None Sync_pending 1 0 0)))"
proof -
  have h: "getTaskById ''t1'' (Some [row_of ''t1'' ''Buy milk'' 100 None Sync_pending 1 0 0])
     = Inr (Some (rowToTask (row_of ''t1'' ''Buy milk'' 100 None Sync_pending 1 0 0)))"
    by (simp add: getTaskById_def select_where_def row_of_def)
  show ?thesis
    using h markTaskAsSynced_clears_created_modified [OF h, of "Some 500"] by blast
qed

text \<open>
  C1 as stated fails on a record that is soft-deleted (here one that was modified and
  then deleted): after \<^verbatim>\<open>markTaskAsSynced\<close> its \<open>locallyDeleted\<close> is still true.
\<close>

theorem markTaskAsSynced_keeps_locallyDeleted:
  "getTaskById ''t1'' (Some [row_of ''t1'' ''Buy milk'' 100 (Some 50) Sync_pending 0 1 1])
     = Inr (Some (rowToTask (row_of ''t1'' ''Buy milk'' 100 (Some 50) Sync_pending 0 1 1)))
   \<and> markTaskAsSynced ''t1'' (Some 500)
        (Some [row_of ''t1'' ''Buy milk'' 100 (Some 50) Sync_pending 0 1 1])
     = Inr (Some [row_of ''t1'' ''Buy milk'' 500 (Some 500) Sync_synced 0 0 1])
   \<and> locallyDeleted (rowToTask (row_of ''t1'' ''Buy milk'' 500 (Some 500) Sync_synced 0 0 1))"
  by (simp add: store_simps row_of_def)

subsection \<open>The invariant of the reachable states\<close>

lemma createTask_Some:
  "createTask newId now input (Some rows) = createTask_try newId now input (Some rows)"
  by (subst createTask.simps)
     (auto simp: createTask_try_def insert_row_def getTaskById_def select_where_def
           split: sum.splits if_splits)

lemma createTask_None:
  "createTask newId now input None = createTask_try newId now input (Some [])"
  by (subst createTask.simps)
     (simp add: createTask_try_def insert_row_def initializeDatabase_def createTask_Some)

lemma update_where_id_invariant:
  assumes "store_invariant d" and "update_where_id i f d = Inr d'"
    and "\<And>rows r. d = Some rows \<Longrightarrow> r \<in> set rows \<Longrightarrow> row_flags_ok r \<Longrightarrow> id' r = i
           \<Longrightarrow> row_flags_ok (f r) \<and> id' (f r) = i"
  shows "store_invariant d'"
proof -
  from assms(2) obtain rows where d: "d = Some rows"
    and d': "d' = Some (map (\<lambda>r. if id' r = i then f r else r) rows)"
    by (cases d) (auto simp: update_where_id_def)
  have ok: "\<forall>r \<in> set rows. row_flags_ok r" and dist: "distinct (map id' rows)"
    using assms(1) d by (auto simp: store_invariant_def)
  have step: "\<And>r. r \<in> set rows \<Longrightarrow> row_flags_ok r \<Longrightarrow> id' r = i
           \<Longrightarrow> row_flags_ok (f r) \<and> id' (f r) = i"
    using assms(3) d by blast
  have eq: "map id' (map (\<lambda>r. if id' r = i then f r else r) rows) = map id' rows"
    using ok step by (simp add: map_idI)
  have "distinct (map id' (map (\<lambda>r. if id' r = i then f r else r) rows))"
    by (simp only: eq dist)
  moreover have "\<forall>r \<in> set (map (\<lambda>r. if id' r = i then f r else r) rows). row_flags_ok r"
    using ok step by auto
  ultimately show ?thesis
    unfolding d' store_invariant_def by simp
qed

lemma delete_where_id_invariant:
  assumes "store_invariant d" and "delete_where_id i d = Inr (n, d')"
  shows "store_invariant d'"
  using assms
  by (cases d) (auto simp: delete_where_id_def store_invariant_def distinct_map_filter)

lemma createTask_invariant:
  assumes "store_invariant d" and "createTask newId now input d = Inr (t, d')"
  shows "store_invariant d'"
  using assms
  by (cases d)
     (auto simp: createTask_None createTask_Some createTask_try_def insert_row_def
        getTaskById_def select_where_def store_invariant_def row_flags_ok_def
        split: if_splits sum.splits)


lemma first_row_unique:
  assumes "distinct (map id' rows)" and "filter (\<lambda>r. id' r = i) rows = x # rest"
    and "r \<in> set rows" and "id' r = i"
  shows "r = x"
proof -
  have "x \<in> set (filter (\<lambda>r. id' r = i) rows)"
    by (simp add: assms(2))
  then have "x \<in> set rows" "id' x = i"
    by auto
  with assms(1,3,4) show ?thesis
    by (metis distinct_map inj_onD)
qed

lemma getTaskById_Some_row:
  assumes "getTaskById i d = Inr (Some t)"
  obtains rows x rest where "d = Some rows" "filter (\<lambda>r. id' r = i) rows = x # rest"
    "t = rowToTask x" "x \<in> set rows" "id' x = i"
proof -
  from assms obtain rows where d: "d = Some rows"
    by (cases d) (auto simp: getTaskById_def select_where_def)
  from assms d obtain x rest
    where f: "filter (\<lambda>r. id' r = i) rows = x # rest" and t: "t = rowToTask x"
    by (auto simp: getTaskById_def select_where_def split: list.splits)
  have "x \<in> set (filter (\<lambda>r. id' r = i) rows)"
    by (simp add: f)
  then have "x \<in> set rows" "id' x = i"
    by auto
  with d f t that show thesis
    by blast
qed

lemma updateTask_invariant:
  assumes inv: "store_invariant d" and upd: "updateTask i upd now d = Inr (t, d')"
  shows "store_invariant d'"
proof (cases "getTaskById i d")
  case (Inl e)
  with upd show ?thesis
    by (simp add: updateTask_def)
next
  case (Inr found)
  show ?thesis
  proof (cases found)
    case None
    with upd Inr inv show ?thesis
      by (simp add: updateTask_def)
  next
    case (Some existingTask)
    with Inr have g: "getTaskById i d = Inr (Some existingTask)"
      by simp
    from g obtain rows x rest where d: "d = Some rows"
      and f: "filter (\<lambda>r. id' r = i) rows = x # rest"
      and ex: "existingTask = rowToTask x" and xin: "x \<in> set rows" and xi: "id' x = i"
      by (rule getTaskById_Some_row)
    have dist: "distinct (map id' rows)"
      using inv d by (simp add: store_invariant_def)
    have keep: "id' (fold (\<lambda>u. u) (updateTask_assignments upd now existingTask) r) = id' r
        \<and> locallyCreated (fold (\<lambda>u. u) (updateTask_assignments upd now existingTask) r)
            = locallyCreated r
        \<and> locallyDeleted (fold (\<lambda>u. u) (updateTask_assignments upd now existingTask) r)
            = locallyDeleted r
        \<and> locallyModified (fold (\<lambda>u. u) (updateTask_assignments upd now existingTask) r)
            = (if \<not> locallyCreated existingTask then 1 else locallyModified r)" for r
      by (simp add: updateTask_assignments_def updateTask_fields_def split: option.splits)
    show ?thesis
    proof (cases "length (updateTask_fields upd) = 0")
      case True
      with upd g inv show ?thesis
        by (simp add: updateTask_def)
    next
      case False
      with upd g obtain d1
        where u: "update_where_id i
                    (\<lambda>r. fold (\<lambda>u. u) (updateTask_assignments upd now existingTask) r) d = Inr d1"
          and d1: "d' = d1"
        by (auto simp: updateTask_def split: sum.splits)
      have "store_invariant d1"
      proof (rule update_where_id_invariant [OF inv u])
        fix rows' r
        assume "d = Some rows'" and rin: "r \<in> set rows'" and rok: "row_flags_ok r"
          and ri: "id' r = i"
        then have "r = x"
          using first_row_unique [OF dist f] d by simp
        then have "locallyCreated existingTask = (locallyCreated r = 1)"
          using ex by (simp add: rowToTask_def)
        with rok ri
        show "row_flags_ok (fold (\<lambda>u. u) (updateTask_assignments upd now existingTask) r)
              \<and> id' (fold (\<lambda>u. u) (updateTask_assignments upd now existingTask) r) = i"
          by (auto simp: keep row_flags_ok_def)
      qed
      with d1 show ?thesis
        by simp
    qed
  qed
qed


lemma deleteTask_invariant:
  assumes inv: "store_invariant d" and del: "deleteTask i now d = Inr (b, d')"
  shows "store_invariant d'"
proof (cases "getTaskById i d")
  case (Inl e)
  with del show ?thesis
    by (simp add: deleteTask_def)
next
  case (Inr found)
  show ?thesis
  proof (cases found)
    case None
    with del Inr inv show ?thesis
      by (simp add: deleteTask_def)
  next
    case (Some task)
    with Inr have g: "getTaskById i d = Inr (Some task)"
      by simp
    from g obtain rows x rest where d: "d = Some rows"
      and f: "filter (\<lambda>r. id' r = i) rows = x # rest"
      and ex: "task = rowToTask x" and xin: "x \<in> set rows" and xi: "id' x = i"
      by (rule getTaskById_Some_row)
    have dist: "distinct (map id' rows)"
      using inv d by (simp add: store_invariant_def)
    show ?thesis
    proof (cases "locallyCreated task")
      case True
      with del g obtain n where "delete_where_id i d = Inr (n, d')"
        by (auto simp: deleteTask_def split: sum.splits)
      with inv show ?thesis
        by (rule delete_where_id_invariant)
    next
      case False
      with del g have u: "update_where_id i
          (\<lambda>r. r\<lparr>locallyDeleted := 1, lastUpdatedAt := now, syncStatus := Sync_pending\<rparr>) d
            = Inr d'"
        by (auto simp: deleteTask_def split: sum.splits)
      show ?thesis
      proof (rule update_where_id_invariant [OF inv u])
        fix rows' r
        assume "d = Some rows'" and rin: "r \<in> set rows'" and rok: "row_flags_ok r"
          and ri: "id' r = i"
        then have "r = x"
          using first_row_unique [OF dist f] d by simp
        then have "locallyCreated r \<noteq> 1"
          using ex False by (simp add: rowToTask_def)
        with rok ri
        show "row_flags_ok (r\<lparr>locallyDeleted := 1, lastUpdatedAt := now,
                               syncStatus := Sync_pending\<rparr>)
              \<and> id' (r\<lparr>locallyDeleted := 1, lastUpdatedAt := now,
                          syncStatus := Sync_pending\<rparr>) = i"
          by (auto simp: row_flags_ok_def)
      qed
    qed
  qed
qed

lemma toggleTaskComplete_invariant:
  assumes "store_invariant d" and "toggleTaskComplete i now d = Inr (t, d')"
  shows "store_invariant d'"
  using assms
  by (auto simp: toggleTaskComplete_def Let_def split: sum.splits option.splits
           dest: updateTask_invariant)

lemma markTaskAsSynced_invariant:
  assumes inv: "store_invariant d" and m: "markTaskAsSynced i serverTask d = Inr d'"
  shows "store_invariant d'"
  by (rule update_where_id_invariant [OF inv m [unfolded markTaskAsSynced_def Let_def]])
     (auto simp: row_flags_ok_def split: option.splits)

lemma markTaskAsConflict_invariant:
  assumes inv: "store_invariant d" and m: "markTaskAsConflict i d = Inr d'"
  shows "store_invariant d'"
  by (rule update_where_id_invariant [OF inv m [unfolded markTaskAsConflict_def]])
     (auto simp: row_flags_ok_def)

lemma removeSyncedDeletedTask_invariant:
  assumes "store_invariant d" and "removeSyncedDeletedTask i d = Inr d'"
  shows "store_invariant d'"
  using assms
  by (auto simp: removeSyncedDeletedTask_def split: sum.splits dest: delete_where_id_invariant)

lemma upsertTaskFromServer_invariant:
  assumes "store_invariant d" and "upsertTaskFromServer s d = Inr d'"
  shows "store_invariant d'"
  using assms
  by (cases d)
     (auto simp: upsertTaskFromServer_def insert_or_replace_row_def store_invariant_def
        row_flags_ok_def distinct_map_filter)

lemma reachable_store_invariant: "reachable d \<Longrightarrow> store_invariant d"
proof (induction rule: reachable.induct)
  case reach_initial
  show ?case by (simp add: store_invariant_def)
next
  case (reach_initializeDatabase d)
  then show ?case by (auto simp: initializeDatabase_def store_invariant_def split: option.splits)
next
  case (reach_destroyDatabase d)
  show ?case by (simp add: destroyDatabase_def store_invariant_def)
next
  case (reach_createTask d newId now input t d')
  then show ?case by (blast intro: createTask_invariant)
next
  case (reach_updateTask d i upd now t d')
  then show ?case by (blast intro: updateTask_invariant)
next
  case (reach_deleteTask d i now b d')
  then show ?case by (blast intro: deleteTask_invariant)
next
  case (reach_toggleTaskComplete d i now t d')
  then show ?case by (blast intro: toggleTaskComplete_invariant)
next
  case (reach_markTaskAsSynced d i serverTask d')
  then show ?case by (blast intro: markTaskAsSynced_invariant)
next
  case (reach_removeSyncedDeletedTask d i d')
  then show ?case by (blast intro: removeSyncedDeletedTask_invariant)
next
  case (reach_upsertTaskFromServer d s d')
  then show ?case by (blast intro: upsertTaskFromServer_invariant)
next
  case (reach_markTaskAsConflict d i d')
  then show ?case by (blast intro: markTaskAsConflict_invariant)
qed

text \<open>
  C3, as the code has it. In every reachable state of the store, a record with
  \<open>locallyCreated\<close> has neither \<open>locallyModified\<close> nor \<open>locallyDeleted\<close>, and a record with
  \<open>locallyDeleted\<close> is returned by \<^verbatim>\<open>getLocallyDeletedTasks\<close> and by neither of the two
  other provenance queries, whatever its \<open>locallyModified\<close>: deletion supersedes
  modification in the queries, not in the flags.
\<close>

theorem reachable_flags:
  assumes "reachable d" and "d = Some rows" and "r \<in> set rows"
  shows "(locallyCreated (rowToTask r) \<longrightarrow>
            \<not> locallyModified (rowToTask r) \<and> \<not> locallyDeleted (rowToTask r))
         \<and> (locallyDeleted (rowToTask r) \<longrightarrow>
              rowToTask r \<in> set (getLocallyDeletedTasks d)
              \<and> rowToTask r \<notin> set (getLocallyModifiedTasks d)
              \<and> rowToTask r \<notin> set (getLocallyCreatedTasks d))"
proof -
  have "row_flags_ok r"
    using reachable_store_invariant [OF assms(1)] assms(2,3) by (simp add: store_invariant_def)
  then show ?thesis
    using assms(2,3) by (auto simp: row_flags_ok_def store_simps)
qed

text \<open>
  A record pulled from the server, edited and then deleted, all before the next sync.
\<close>

lemma edit_then_delete_steps:
  "upsertTaskFromServer
      \<lparr> ServerTaskInput.id' = ''t1'', ServerTaskInput.title = ''Buy milk'',
        ServerTaskInput.description = None, ServerTaskInput.status = Status_pending,
        ServerTaskInput.lastUpdatedAt = 50 \<rparr> (Some [])
     = Inr (Some [row_of ''t1'' ''Buy milk'' 50 (Some 50) Sync_synced 0 0 0])"
  "updateTask ''t1''
      \<lparr> UpdateTaskInput.title = Some ''Buy bread'', UpdateTaskInput.description = None,
        UpdateTaskInput.status = None \<rparr> 100
      (Some [row_of ''t1'' ''Buy milk'' 50 (Some 50) Sync_synced 0 0 0])
     = Inr (Some (rowToTask (row_of ''t1'' ''Buy bread'' 100 (Some 50) Sync_pending 0 1 0)),
            Some [row_of ''t1'' ''Buy bread'' 100 (Some 50) Sync_pending 0 1 0])"
  "deleteTask ''t1'' 200 (Some [row_of ''t1'' ''Buy bread'' 100 (Some 50) Sync_pending 0 1 0])
     = Inr (True, Some [row_of ''t1'' ''Buy bread'' 200 (Some 50) Sync_pending 0 1 1])"
  by (simp_all add: store_simps updateTask_def updateTask_fields_def
        updateTask_assignments_def deleteTask_def row_of_def)

lemma edit_then_delete_reachable:
  "reachable (Some [row_of ''t1'' ''Buy bread'' 200 (Some 50) Sync_pending 0 1 1])"
proof -
  have "reachable (initializeDatabase None)"
    by (intro reach_initializeDatabase reach_initial)
  then have "reachable (Some [])"
    by (simp add: initializeDatabase_def)
  then have "reachable (Some [row_of ''t1'' ''Buy milk'' 50 (Some 50) Sync_synced 0 0 0])"
    by (rule reach_upsertTaskFromServer [OF _ edit_then_delete_steps(1)])
  then have "reachable (Some [row_of ''t1'' ''Buy bread'' 100 (Some 50) Sync_pending 0 1 0])"
    by (rule reach_updateTask [OF _ edit_then_delete_steps(2)])
  then show ?thesis
    by (rule reach_deleteTask [OF _ edit_then_delete_steps(3)])
qed

theorem reachable_flags_witness:
  "reachable (Some [row_of ''t1'' ''Buy bread'' 200 (Some 50) Sync_pending 0 1 1])
   \<and> row_of ''t1'' ''Buy bread'' 200 (Some 50) Sync_pending 0 1 1
       \<in> set [row_of ''t1'' ''Buy bread'' 200 (Some 50) Sync_pending 0 1 1]
   \<and> locallyDeleted (rowToTask (row_of ''t1'' ''Buy bread'' 200 (Some 50) Sync_pending 0 1 1))
   \<and> \<not> locallyCreated (rowToTask (row_of ''t1'' ''Buy bread'' 200 (Some 50) Sync_pending 0 1 1))
   \<and> rowToTask (row_of ''t1'' ''Buy bread'' 200 (Some 50) Sync_pending 0 1 1)
       \<in> set (getLocallyDeletedTasks
                (Some [row_of ''t1'' ''Buy bread'' 200 (Some 50) Sync_pending 0 1 1]))
   \<and> rowToTask (row_of ''t1'' ''Buy bread'' 200 (Some 50) Sync_pending 0 1 1)
       \<notin> set (getLocallyModifiedTasks
                (Some [row_of ''t1'' ''Buy bread'' 200 (Some 50) Sync_pending 0 1 1]))"
proof -
  have del: "locallyDeleted
               (rowToTask (row_of ''t1'' ''Buy bread'' 200 (Some 50) Sync_pending 0 1 1))"
    and cre: "\<not> locallyCreated
               (rowToTask (row_of ''t1'' ''Buy bread'' 200 (Some 50) Sync_pending 0 1 1))"
    by (simp_all add: rowToTask_def row_of_def)
  show ?thesis
    using del cre edit_then_delete_reachable
      reachable_flags [OF edit_then_delete_reachable refl,
        of "row_of ''t1'' ''Buy bread'' 200 (Some 50) Sync_pending 0 1 1"]
    by simp
qed

text \<open>
  C3 as stated fails: the three steps above are operations of the store, and the record
  they leave has \<open>locallyModified\<close> and \<open>locallyDeleted\<close> both true.
\<close>

theorem locallyModified_and_locallyDeleted_together:
  "reachable (Some [row_of ''t1'' ''Buy bread'' 200 (Some 50) Sync_pending 0 1 1])
   \<and> deleteTask ''t1'' 200 (Some [row_of ''t1'' ''Buy bread'' 100 (Some 50) Sync_pending 0 1 0])
       = Inr (True, Some [row_of ''t1'' ''Buy bread'' 200 (Some 50) Sync_pending 0 1 1])
   \<and> locallyModified (rowToTask (row_of ''t1'' ''Buy bread'' 200 (Some 50) Sync_pending 0 1 1))
   \<and> locallyDeleted (rowToTask (row_of ''t1'' ''Buy bread'' 200 (Some 50) Sync_pending 0 1 1))"
  using edit_then_delete_reachable edit_then_delete_steps(3)
  by (simp add: rowToTask_def row_of_def)

subsection \<open>The three provenance queries\<close>



lemma shrinks_refl [simp]: "shrinks d d"
  by (simp add: shrinks_def)



















section \<open>Properties of the push phase\<close>

subsection \<open>Reading a record back after a statement\<close>

lemma getTaskById_after_update:
  assumes "getTaskById i d = Inr (Some t)" and "\<And>r. id' (f r) = id' r"
    and "\<And>r. rowToTask (f r) = g (rowToTask r)"
  shows "\<exists>d'. update_where_id i f d = Inr d' \<and> getTaskById i d' = Inr (Some (g t))"
proof -
  from assms(1) obtain rows x rest where d: "d = Some rows"
    and f: "filter (\<lambda>r. id' r = i) rows = x # rest" and t: "t = rowToTask x"
    and xi: "id' x = i"
    by (rule getTaskById_Some_row)
  have "filter (\<lambda>r. id' r = i) (map (\<lambda>r. if id' r = i then f r else r) rows)
        = map f (filter (\<lambda>r. id' r = i) rows)"
    by (induction rows) (auto simp: assms(2))
  with f t show ?thesis
    by (simp add: d update_where_id_def getTaskById_def select_where_def assms(3))
qed

lemma getTaskById_after_markTaskAsSynced:
  assumes "getTaskById i d = Inr (Some t)"
  shows "\<exists>d'. markTaskAsSynced i (Some ts) d = Inr d'
           \<and> getTaskById i d'
               = Inr (Some (t\<lparr>lastUpdatedAt := ts, serverLastUpdatedAt := Some ts,
                              syncStatus := Sync_synced, locallyCreated := False,
                              locallyModified := False\<rparr>))"
  unfolding markTaskAsSynced_def Let_def
  by (rule getTaskById_after_update [OF assms]) (simp_all add: rowToTask_def)

lemma getTaskById_after_markTaskAsConflict:
  assumes "getTaskById i d = Inr (Some t)"
  shows "\<exists>d'. markTaskAsConflict i d = Inr d'
           \<and> getTaskById i d' = Inr (Some (t\<lparr>syncStatus := Sync_conflict\<rparr>))"
  unfolding markTaskAsConflict_def
  by (rule getTaskById_after_update [OF assms]) (simp_all add: rowToTask_def)

lemma getTaskById_after_upsert:
  assumes "d = Some rows"
  shows "\<exists>d'. upsertTaskFromServer s d = Inr d'
           \<and> getTaskById (ServerTaskInput.id' s) d'
               = Inr (Some \<lparr> id' = ServerTaskInput.id' s,
                              title = ServerTaskInput.title s,
                              description = ServerTaskInput.description s,
                              status = ServerTaskInput.status s,
                              lastUpdatedAt = ServerTaskInput.lastUpdatedAt s,
                              serverLastUpdatedAt = Some (ServerTaskInput.lastUpdatedAt s),
                              syncStatus = Sync_synced,
                              locallyCreated = False, locallyModified = False,
                              locallyDeleted = False \<rparr>)"
  by (simp add: assms upsertTaskFromServer_def insert_or_replace_row_def getTaskById_def
        select_where_def rowToTask_def)


lemma call_updateTask_frame:
  assumes "api_updateTask api i payload (server w) = (answer, sv)"
  shows "call_updateTask api i payload w
           = (answer, w\<lparr>server := sv, requests := requests w @ [Req_updateTask i payload]\<rparr>)"
  by (simp add: call_updateTask_def assms)

subsection \<open>Conflict resolution\<close>

text \<open>
  C4. \<^verbatim>\<open>handleConflict\<close> on a local record that is in the store (\<open>cur\<close> is what the store
  holds for it) and the server's version of it. If the local \<^verbatim>\<open>lastUpdatedAt\<close> is
  strictly greater, exactly one request is sent, the update with the local title,
  description and status and the server's timestamp as base; when it succeeds the
  record keeps its fields and is marked synced with the timestamp of the answer, when
  it fails the record gets the sync status \<open>conflict\<close>. If the local timestamp is equal
  or older, no request is sent and the record of that id has the server's fields and
  timestamp, is synced, and has no flag set. Nothing is thrown in either case.
\<close>

theorem handleConflict_last_write_wins:
  assumes loc: "getTaskById (id' localTask) (db w) = Inr (Some cur)"
  shows
    "(lastUpdatedAt localTask > ApiTask.lastUpdatedAt serverTask \<longrightarrow>
        (\<exists>answer sv w'.
           api_updateTask api (id' localTask)
             \<lparr> UpdateTaskPayload.title = Some (title localTask),
               UpdateTaskPayload.description = description localTask,
               UpdateTaskPayload.status = Some (status localTask),
               UpdateTaskPayload.lastUpdatedAt = Some (ApiTask.lastUpdatedAt serverTask) \<rparr>
             (server w) = (answer, sv)
           \<and> handleConflict api localTask serverTask w = (w', None)
           \<and> server w' = sv
           \<and> requests w' = requests w
                @ [Req_updateTask (id' localTask)
                     \<lparr> UpdateTaskPayload.title = Some (title localTask),
                       UpdateTaskPayload.description = description localTask,
                       UpdateTaskPayload.status = Some (status localTask),
                       UpdateTaskPayload.lastUpdatedAt = Some (ApiTask.lastUpdatedAt serverTask) \<rparr>]
           \<and> (\<forall>updatedTask. answer = Inr updatedTask \<longrightarrow>
                 getTaskById (id' localTask) (db w')
                   = Inr (Some (cur\<lparr>lastUpdatedAt := ApiTask.lastUpdatedAt updatedTask,
                                     serverLastUpdatedAt := Some (ApiTask.lastUpdatedAt updatedTask),
                                     syncStatus := Sync_synced, locallyCreated := False,
                                     locallyModified := False\<rparr>)))
           \<and> (\<forall>e. answer = Inl e \<longrightarrow>
                 getTaskById (id' localTask) (db w')
                   = Inr (Some (cur\<lparr>syncStatus := Sync_conflict\<rparr>)))))
     \<and> (lastUpdatedAt localTask \<le> ApiTask.lastUpdatedAt serverTask
          \<and> ApiTask.id' serverTask = id' localTask \<longrightarrow>
        (\<exists>w'. handleConflict api localTask serverTask w = (w', None)
           \<and> server w' = server w \<and> requests w' = requests w
           \<and> getTaskById (id' localTask) (db w')
               = Inr (Some \<lparr> id' = id' localTask,
                              title = ApiTask.title serverTask,
                              description = ApiTask.description serverTask,
                              status = ApiTask.status serverTask,
                              lastUpdatedAt = ApiTask.lastUpdatedAt serverTask,
                              serverLastUpdatedAt = Some (ApiTask.lastUpdatedAt serverTask),
                              syncStatus = Sync_synced,
                              locallyCreated = False, locallyModified = False,
                              locallyDeleted = False \<rparr>)))"
proof (intro conjI impI)
  assume newer: "lastUpdatedAt localTask > ApiTask.lastUpdatedAt serverTask"
  define payload where "payload =
     \<lparr> UpdateTaskPayload.title = Some (title localTask),
       UpdateTaskPayload.description = description localTask,
       UpdateTaskPayload.status = Some (status localTask),
       UpdateTaskPayload.lastUpdatedAt = Some (ApiTask.lastUpdatedAt serverTask) \<rparr>"
  obtain answer sv where ans: "api_updateTask api (id' localTask) payload (server w) = (answer, sv)"
    by (cases "api_updateTask api (id' localTask) payload (server w)")
  define w1 where
    "w1 = w\<lparr>server := sv, requests := requests w @ [Req_updateTask (id' localTask) payload]\<rparr>"
  have call: "call_updateTask api (id' localTask) payload w = (answer, w1)"
    using call_updateTask_frame [OF ans] by (simp add: w1_def)
  have loc1: "getTaskById (id' localTask) (db w1) = Inr (Some cur)"
    using loc by (simp add: w1_def)
  have "\<exists>w'. handleConflict api localTask serverTask w = (w', None)
           \<and> server w' = sv
           \<and> requests w' = requests w @ [Req_updateTask (id' localTask) payload]
           \<and> (\<forall>updatedTask. answer = Inr updatedTask \<longrightarrow>
                 getTaskById (id' localTask) (db w')
                   = Inr (Some (cur\<lparr>lastUpdatedAt := ApiTask.lastUpdatedAt updatedTask,
                                     serverLastUpdatedAt := Some (ApiTask.lastUpdatedAt updatedTask),
                                     syncStatus := Sync_synced, locallyCreated := False,
                                     locallyModified := False\<rparr>)))
           \<and> (\<forall>e. answer = Inl e \<longrightarrow>
                 getTaskById (id' localTask) (db w')
                   = Inr (Some (cur\<lparr>syncStatus := Sync_conflict\<rparr>)))"
  proof (cases answer)
    case (Inl e)
    from getTaskById_after_markTaskAsConflict [OF loc1] obtain d'
      where m: "markTaskAsConflict (id' localTask) (db w1) = Inr d'"
        and g: "getTaskById (id' localTask) d' = Inr (Some (cur\<lparr>syncStatus := Sync_conflict\<rparr>))"
      by blast
    have "handleConflict api localTask serverTask w = (w1\<lparr>db := d'\<rparr>, None)"
      using newer call Inl m
      by (simp add: handleConflict_def payload_def [symmetric] run_store_def)
    with g Inl show ?thesis
      by (simp add: w1_def)
  next
    case (Inr updatedTask)
    from getTaskById_after_markTaskAsSynced [OF loc1, of "ApiTask.lastUpdatedAt updatedTask"]
    obtain d'
      where m: "markTaskAsSynced (id' localTask) (Some (ApiTask.lastUpdatedAt updatedTask)) (db w1)
                  = Inr d'"
        and g: "getTaskById (id' localTask) d'
                  = Inr (Some (cur\<lparr>lastUpdatedAt := ApiTask.lastUpdatedAt updatedTask,
                                     serverLastUpdatedAt := Some (ApiTask.lastUpdatedAt updatedTask),
                                     syncStatus := Sync_synced, locallyCreated := False,
                                     locallyModified := False\<rparr>))"
      by blast
    have "handleConflict api localTask serverTask w = (w1\<lparr>db := d'\<rparr>, None)"
      using newer call Inr m
      by (simp add: handleConflict_def payload_def [symmetric] run_store_def)
    with g Inr show ?thesis
      by (simp add: w1_def)
  qed
  with ans show "\<exists>answer sv w'.
           api_updateTask api (id' localTask)
             \<lparr> UpdateTaskPayload.title = Some (title localTask),
               UpdateTaskPayload.description = description localTask,
               UpdateTaskPayload.status = Some (status localTask),
               UpdateTaskPayload.lastUpdatedAt = Some (ApiTask.lastUpdatedAt serverTask) \<rparr>
             (server w) = (answer, sv)
           \<and> handleConflict api localTask serverTask w = (w', None)
           \<and> server w' = sv
           \<and> requests w' = requests w
                @ [Req_updateTask (id' localTask)
                     \<lparr> UpdateTaskPayload.title = Some (title localTask),
                       UpdateTaskPayload.description = description localTask,
                       UpdateTaskPayload.status = Some (status localTask),
                       UpdateTaskPayload.lastUpdatedAt = Some (ApiTask.lastUpdatedAt serverTask) \<rparr>]
           \<and> (\<forall>updatedTask. answer = Inr updatedTask \<longrightarrow>
                 getTaskById (id' localTask) (db w')
                   = Inr (Some (cur\<lparr>lastUpdatedAt := ApiTask.lastUpdatedAt updatedTask,
                                     serverLastUpdatedAt := Some (ApiTask.lastUpdatedAt updatedTask),
                                     syncStatus := Sync_synced, locallyCreated := False,
                                     locallyModified := False\<rparr>)))
           \<and> (\<forall>e. answer = Inl e \<longrightarrow>
                 getTaskById (id' localTask) (db w')
                   = Inr (Some (cur\<lparr>syncStatus := Sync_conflict\<rparr>)))"
    unfolding payload_def by blast
next
  assume older: "lastUpdatedAt localTask \<le> ApiTask.lastUpdatedAt serverTask
                 \<and> ApiTask.id' serverTask = id' localTask"
  from loc obtain rows where d: "db w = Some rows"
    by (rule getTaskById_Some_row)
  define s where "s =
     \<lparr> ServerTaskInput.id' = ApiTask.id' serverTask,
       ServerTaskInput.title = ApiTask.title serverTask,
       ServerTaskInput.description = ApiTask.description serverTask,
       ServerTaskInput.status = ApiTask.status serverTask,
       ServerTaskInput.lastUpdatedAt = ApiTask.lastUpdatedAt serverTask \<rparr>"
  from getTaskById_after_upsert [OF d, of s] obtain d'
    where u: "upsertTaskFromServer s (db w) = Inr d'"
      and g: "getTaskById (ServerTaskInput.id' s) d'
               = Inr (Some \<lparr> id' = ServerTaskInput.id' s,
                              title = ServerTaskInput.title s,
                              description = ServerTaskInput.description s,
                              status = ServerTaskInput.status s,
                              lastUpdatedAt = ServerTaskInput.lastUpdatedAt s,
                              serverLastUpdatedAt = Some (ServerTaskInput.lastUpdatedAt s),
                              syncStatus = Sync_synced,
                              locallyCreated = False, locallyModified = False,
                              locallyDeleted = False \<rparr>)"
    by blast
  have "handleConflict api localTask serverTask w = (w\<lparr>db := d'\<rparr>, None)"
    using older u [unfolded s_def] by (simp add: handleConflict_def run_store_def)
  with g older
  show "\<exists>w'. handleConflict api localTask serverTask w = (w', None)
           \<and> server w' = server w \<and> requests w' = requests w
           \<and> getTaskById (id' localTask) (db w')
               = Inr (Some \<lparr> id' = id' localTask,
                              title = ApiTask.title serverTask,
                              description = ApiTask.description serverTask,
                              status = ApiTask.status serverTask,
                              lastUpdatedAt = ApiTask.lastUpdatedAt serverTask,
                              serverLastUpdatedAt = Some (ApiTask.lastUpdatedAt serverTask),
                              syncStatus = Sync_synced,
                              locallyCreated = False, locallyModified = False,
                              locallyDeleted = False \<rparr>)"
    by (simp add: s_def)
qed

theorem handleConflict_last_write_wins_witness:
  "getTaskById ''t1'' (db (quiet_world (Some [local_edit 300 Sync_pending])))
     = Inr (Some (rowToTask (local_edit 300 Sync_pending)))
   \<and> lastUpdatedAt (rowToTask (local_edit 300 Sync_pending))
       > ApiTask.lastUpdatedAt (server_version 200)
   \<and> (\<exists>w'. handleConflict (accepting_api 400) (rowToTask (local_edit 300 Sync_pending))
                (server_version 200) (quiet_world (Some [local_edit 300 Sync_pending]))
              = (w', None)
           \<and> requests w' = [update_request 200]
           \<and> getTaskById ''t1'' (db w')
               = Inr (Some (rowToTask (row_of ''t1'' ''Local title'' 400 (Some 400)
                                        Sync_synced 0 0 0))))
   \<and> getTaskById ''t1'' (db (quiet_world (Some [local_edit 100 Sync_pending])))
     = Inr (Some (rowToTask (local_edit 100 Sync_pending)))
   \<and> lastUpdatedAt (rowToTask (local_edit 100 Sync_pending))
       \<le> ApiTask.lastUpdatedAt (server_version 200)
   \<and> ApiTask.id' (server_version 200) = id' (rowToTask (local_edit 100 Sync_pending))
   \<and> (\<exists>w'. handleConflict (accepting_api 400) (rowToTask (local_edit 100 Sync_pending))
                (server_version 200) (quiet_world (Some [local_edit 100 Sync_pending]))
              = (w', None)
           \<and> requests w' = []
           \<and> getTaskById ''t1'' (db w')
               = Inr (Some \<lparr> id' = ''t1'', title = ''Server title'', description = None,
                              status = Status_completed, lastUpdatedAt = 200,
                              serverLastUpdatedAt = Some 200, syncStatus = Sync_synced,
                              locallyCreated = False, locallyModified = False,
                              locallyDeleted = False \<rparr>))"
proof -
  have loc300: "getTaskById (id' (rowToTask (local_edit 300 Sync_pending)))
                  (db (quiet_world (Some [local_edit 300 Sync_pending])))
     = Inr (Some (rowToTask (local_edit 300 Sync_pending)))"
    by (simp add: quiet_world_def world_of_def local_edit_def row_of_def getTaskById_def
          select_where_def)
  have loc100: "getTaskById (id' (rowToTask (local_edit 100 Sync_pending)))
                  (db (quiet_world (Some [local_edit 100 Sync_pending])))
     = Inr (Some (rowToTask (local_edit 100 Sync_pending)))"
    by (simp add: quiet_world_def world_of_def local_edit_def row_of_def getTaskById_def
          select_where_def)
  have i: "id' (local_edit ts st) = ''t1''" for ts st
    by (simp add: local_edit_def row_of_def)
  have facts:
    "lastUpdatedAt (rowToTask (local_edit 300 Sync_pending))
       > ApiTask.lastUpdatedAt (server_version 200)"
    "lastUpdatedAt (rowToTask (local_edit 100 Sync_pending))
       \<le> ApiTask.lastUpdatedAt (server_version 200)"
    "ApiTask.id' (server_version 200) = id' (rowToTask (local_edit 100 Sync_pending))"
    by (simp_all add: local_edit_def row_of_def rowToTask_def server_version_def)
  have newer: "\<exists>w'. handleConflict (accepting_api 400) (rowToTask (local_edit 300 Sync_pending))
                (server_version 200) (quiet_world (Some [local_edit 300 Sync_pending]))
              = (w', None)
           \<and> requests w' = [update_request 200]
           \<and> getTaskById ''t1'' (db w')
               = Inr (Some (rowToTask (row_of ''t1'' ''Local title'' 400 (Some 400)
                                        Sync_synced 0 0 0)))"
    using facts(1)
      handleConflict_last_write_wins [OF loc300, of "server_version 200" "accepting_api 400"]
    by (simp add: i accepting_api_def const_api_def quiet_world_def world_of_def
          update_request_def local_edit_def row_of_def rowToTask_def server_version_def)
  have older: "\<exists>w'. handleConflict (accepting_api 400) (rowToTask (local_edit 100 Sync_pending))
                (server_version 200) (quiet_world (Some [local_edit 100 Sync_pending]))
              = (w', None)
           \<and> requests w' = []
           \<and> getTaskById ''t1'' (db w')
               = Inr (Some \<lparr> id' = ''t1'', title = ''Server title'', description = None,
                              status = Status_completed, lastUpdatedAt = 200,
                              serverLastUpdatedAt = Some 200, syncStatus = Sync_synced,
                              locallyCreated = False, locallyModified = False,
                              locallyDeleted = False \<rparr>)"
    using facts(2,3)
      handleConflict_last_write_wins [OF loc100, of "server_version 200" "accepting_api 400"]
    by (simp add: i quiet_world_def world_of_def local_edit_def row_of_def rowToTask_def
          server_version_def)
  show ?thesis
    using loc300 loc100 facts newer older by (simp add: i)
qed

subsection \<open>An update that the server does not find\<close>








section \<open>Properties of the sync cycle\<close>



text \<open>
  C8, as the code has it. A call of \<^verbatim>\<open>sync()\<close> while offline, when no cycle is in
  progress, returns \<^verbatim>\<open>false\<close>; the only change of the world is that every status
  listener has received the current status. No request is sent; the database, the
  sync state, \<^verbatim>\<open>lastSyncTime\<close> and \<^verbatim>\<open>lastError\<close> are unchanged.
\<close>

theorem sync_offline_republishes:
  "\<not> isSyncInProgress w \<Longrightarrow> \<not> isOnline w \<Longrightarrow>
   sync api w =
     (False, w\<lparr>statusDelivered :=
                 statusDelivered w
                 @ map (\<lambda>listener. (listener, getSyncStatus w)) (statusListeners w)\<rparr>)"
  by (simp add: sync_def notifyStatusListeners_def)

theorem sync_offline_republishes_witness:
  "\<not> isSyncInProgress (world_of (Some []) Net_offline False)
   \<and> \<not> isOnline (world_of (Some []) Net_offline False)
   \<and> sync (const_api (Inr []) (Inl (NetworkError ''down'')) (Inl (NetworkError ''down'')) (Inr ()))
        (world_of (Some []) Net_offline False)
     = (False, (world_of (Some []) Net_offline False)
                 \<lparr>statusDelivered :=
                    [(0, getSyncStatus (world_of (Some []) Net_offline False))]\<rparr>)"
proof -
  have h1: "\<not> isSyncInProgress (world_of (Some []) Net_offline False)"
    by (simp add: world_of_def)
  have h2: "\<not> isOnline (world_of (Some []) Net_offline False)"
    by (simp add: world_of_def isOnline_def)
  have l: "statusListeners (world_of (Some []) Net_offline False) = [0]"
    "statusDelivered (world_of (Some []) Net_offline False) = []"
    by (simp_all add: world_of_def)
  show ?thesis
    using h1 h2 sync_offline_republishes [OF h1 h2] by (simp add: l)
qed

text \<open>
  C8 as stated fails when the call comes while offline and a cycle is in progress: the
  first guard returns before \<^verbatim>\<open>notifyStatusListeners\<close>, and the registered listener
  receives nothing.
\<close>

theorem sync_offline_in_progress_silent:
  "\<not> isOnline (world_of (Some []) Net_offline True)
   \<and> statusListeners (world_of (Some []) Net_offline True) = [0]
   \<and> statusDelivered
        (snd (sync (const_api (Inr []) (Inl (NetworkError ''down''))
                      (Inl (NetworkError ''down'')) (Inr ()))
                (world_of (Some []) Net_offline True))) = []"
  by (simp add: sync_def world_of_def isOnline_def)

section \<open>Properties of the pull phase\<close>

subsection \<open>Records with a pending change\<close>

lemma select_after_upsert:
  assumes "ServerTaskInput.id' s \<noteq> i" and "upsertTaskFromServer s d = Inr d'"
  shows "select_where (\<lambda>r. id' r = i) d' = select_where (\<lambda>r. id' r = i) d"
proof -
  from assms(2) obtain rows where d: "d = Some rows"
    by (cases d) (auto simp: upsertTaskFromServer_def insert_or_replace_row_def)
  have "filter (\<lambda>r. id' r = i) (filter (\<lambda>x. id' x \<noteq> ServerTaskInput.id' s) rows)
        = filter (\<lambda>r. id' r = i) rows"
    using assms(1) by (induction rows) auto
  with assms show ?thesis
    by (auto simp: d upsertTaskFromServer_def insert_or_replace_row_def select_where_def)
qed

lemma select_after_remove:
  assumes "j \<noteq> i" and "removeSyncedDeletedTask j d = Inr d'"
  shows "select_where (\<lambda>r. id' r = i) d' = select_where (\<lambda>r. id' r = i) d"
proof -
  from assms(2) obtain rows where d: "d = Some rows"
    by (cases d) (auto simp: removeSyncedDeletedTask_def delete_where_id_def)
  have "filter (\<lambda>r. id' r = i) (filter (\<lambda>r. id' r \<noteq> j) rows) = filter (\<lambda>r. id' r = i) rows"
    using assms(1) by (induction rows) auto
  with assms show ?thesis
    by (auto simp: d removeSyncedDeletedTask_def delete_where_id_def select_where_def)
qed

lemma run_store_select:
  assumes "run_store stmt w = (w', thrown)"
    and "\<And>d'. stmt (db w) = Inr d' \<Longrightarrow>
           select_where (\<lambda>r. id' r = i) d' = select_where (\<lambda>r. id' r = i) (db w)"
  shows "select_where (\<lambda>r. id' r = i) (db w') = select_where (\<lambda>r. id' r = i) (db w)"
  using assms by (cases "stmt (db w)") (auto simp: run_store_def)

lemma upsert_loop_select:
  assumes "i \<in> pendingIds"
    and "for_of (upsertUnlessPending pendingIds) serverTasks w = (w', thrown)"
  shows "select_where (\<lambda>r. id' r = i) (db w') = select_where (\<lambda>r. id' r = i) (db w)"
  using assms(2)
proof (induction serverTasks arbitrary: w)
  case Nil
  then show ?case by simp
next
  case (Cons t ts)
  obtain w1 e1 where step: "upsertUnlessPending pendingIds t w = (w1, e1)"
    by (cases "upsertUnlessPending pendingIds t w")
  have keep: "select_where (\<lambda>r. id' r = i) (db w1) = select_where (\<lambda>r. id' r = i) (db w)"
  proof (cases "ApiTask.id' t \<in> pendingIds")
    case True
    with step show ?thesis
      by (simp add: upsertUnlessPending_def)
  next
    case False
    with assms(1) have ne: "ApiTask.id' t \<noteq> i"
      by blast
    from step False have
      "run_store (upsertTaskFromServer
                    \<lparr> ServerTaskInput.id' = ApiTask.id' t,
                      ServerTaskInput.title = ApiTask.title t,
                      ServerTaskInput.description = ApiTask.description t,
                      ServerTaskInput.status = ApiTask.status t,
                      ServerTaskInput.lastUpdatedAt = ApiTask.lastUpdatedAt t \<rparr>) w = (w1, e1)"
      by (simp add: upsertUnlessPending_def)
    then show ?thesis
    proof (rule run_store_select)
      fix d'
      assume "upsertTaskFromServer
                \<lparr> ServerTaskInput.id' = ApiTask.id' t,
                  ServerTaskInput.title = ApiTask.title t,
                  ServerTaskInput.description = ApiTask.description t,
                  ServerTaskInput.status = ApiTask.status t,
                  ServerTaskInput.lastUpdatedAt = ApiTask.lastUpdatedAt t \<rparr> (db w) = Inr d'"
      then show "select_where (\<lambda>r. id' r = i) d' = select_where (\<lambda>r. id' r = i) (db w)"
        by (rule select_after_upsert [rotated]) (simp add: ne)
    qed
  qed
  show ?case
  proof (cases e1)
    case None
    with Cons.prems step have "for_of (upsertUnlessPending pendingIds) ts w1 = (w', thrown)"
      by simp
    then have "select_where (\<lambda>r. id' r = i) (db w') = select_where (\<lambda>r. id' r = i) (db w1)"
      by (rule Cons.IH)
    with keep show ?thesis
      by simp
  next
    case (Some e)
    with Cons.prems step have "w' = w1"
      by simp
    with keep show ?thesis
      by simp
  qed
qed

lemma remove_loop_select:
  assumes "\<forall>t \<in> set localTasks. id' t \<noteq> i"
    and "for_of (removeIfAbsent serverMap) localTasks w = (w', thrown)"
  shows "select_where (\<lambda>r. id' r = i) (db w') = select_where (\<lambda>r. id' r = i) (db w)"
  using assms
proof (induction localTasks arbitrary: w)
  case Nil
  then show ?case by simp
next
  case (Cons t ts)
  obtain w1 e1 where step: "removeIfAbsent serverMap t w = (w1, e1)"
    by (cases "removeIfAbsent serverMap t w")
  from Cons.prems(1) have ne: "id' t \<noteq> i"
    by simp
  have keep: "select_where (\<lambda>r. id' r = i) (db w1) = select_where (\<lambda>r. id' r = i) (db w)"
  proof (cases "serverMap (id' t) = None")
    case True
    with step have "run_store (removeSyncedDeletedTask (id' t)) w = (w1, e1)"
      by (simp add: removeIfAbsent_def)
    then show ?thesis
      by (rule run_store_select) (rule select_after_remove [OF ne])
  next
    case False
    with step show ?thesis
      by (simp add: removeIfAbsent_def)
  qed
  show ?case
  proof (cases e1)
    case None
    with Cons.prems step have "for_of (removeIfAbsent serverMap) ts w1 = (w', thrown)"
      by simp
    moreover from Cons.prems(1) have "\<forall>t \<in> set ts. id' t \<noteq> i"
      by simp
    ultimately have
      "select_where (\<lambda>r. id' r = i) (db w') = select_where (\<lambda>r. id' r = i) (db w1)"
      by (rule Cons.IH [rotated])
    with keep show ?thesis
      by simp
  next
    case (Some e)
    with Cons.prems step have "w' = w1"
      by simp
    with keep show ?thesis
      by simp
  qed
qed

lemma pending_id_has_row:
  assumes "i \<in> localPendingIds d"
  shows "\<exists>t. getTaskById i d = Inr (Some t)"
proof -
  from assms obtain rows where d: "d = Some rows"
    by (cases d) (auto simp: localPendingIds_def localPendingTasks_def store_simps)
  from assms d obtain r where "r \<in> set rows" "id' r = i"
    by (auto simp: localPendingIds_def localPendingTasks_def store_simps)
  then have "filter (\<lambda>r. id' r = i) rows \<noteq> []"
    by (auto simp: filter_empty_conv)
  then show ?thesis
    by (cases "filter (\<lambda>r. id' r = i) rows") (simp_all add: d getTaskById_def select_where_def)
qed

text \<open>
  C6. A record whose id is in the pending-id set when the pull phase runs (it is
  returned by one of the three provenance queries) is untouched by the pull phase,
  whatever the server answers and however the phase ends: the rows of that id are the
  same before and after, so what \<^verbatim>\<open>getTaskById\<close> returns for it is the same, and it is a
  record. It is neither overwritten by an upsert nor hard-deleted.
\<close>

theorem pullChanges_keeps_pending:
  assumes pend: "i \<in> localPendingIds (db w)" and pull: "pullChanges api w = (res, w')"
  shows "select_where (\<lambda>r. id' r = i) (db w') = select_where (\<lambda>r. id' r = i) (db w)
         \<and> getTaskById i (db w') = getTaskById i (db w)
         \<and> (\<exists>t. getTaskById i (db w') = Inr (Some t))"
proof -
  obtain answer w1 where fetch: "call_fetchTasks api w = (answer, w1)"
    by (cases "call_fetchTasks api w")
  then have db1: "db w1 = db w"
    by (auto simp: call_fetchTasks_def split: prod.splits)
  have sel: "select_where (\<lambda>r. id' r = i) (db w') = select_where (\<lambda>r. id' r = i) (db w)"
  proof (cases answer)
    case (Inl e)
    with pull fetch db1 show ?thesis
      by (auto simp: pullChanges_def)
  next
    case (Inr serverTasks)
    obtain w2 e2 where up:
      "for_of (upsertUnlessPending (localPendingIds (db w1))) serverTasks w1 = (w2, e2)"
      by (cases "for_of (upsertUnlessPending (localPendingIds (db w1))) serverTasks w1")
    have s2: "select_where (\<lambda>r. id' r = i) (db w2) = select_where (\<lambda>r. id' r = i) (db w1)"
      using pend db1 by (intro upsert_loop_select [OF _ up]) simp
    show ?thesis
    proof (cases e2)
      case (Some e)
      with pull fetch Inr up have "w' = w2"
        by (simp add: pullChanges_def suspicious_check_def Let_def split: if_splits)
      with s2 db1 show ?thesis
        by simp
    next
      case None
      define synced where "synced =
        filter (\<lambda>task. id' task \<notin> localPendingIds (db w1) \<and> \<not> locallyCreated task)
          (getAllTasks (db w1))"
      obtain w3 e3 where rm:
        "for_of (removeIfAbsent (serverTaskMap serverTasks)) synced w2 = (w3, e3)"
        by (cases "for_of (removeIfAbsent (serverTaskMap serverTasks)) synced w2")
      have "\<forall>t \<in> set synced. id' t \<noteq> i"
        using pend db1 by (auto simp: synced_def)
      then have s3: "select_where (\<lambda>r. id' r = i) (db w3) = select_where (\<lambda>r. id' r = i) (db w2)"
        using rm by (rule remove_loop_select)
      have "w' = w3 \<or> w' = w1"
        using pull fetch Inr up None rm
        by (auto simp: pullChanges_def Let_def synced_def split: if_splits option.splits)
      with s2 s3 db1 show ?thesis
        by auto
    qed
  qed
  then have "getTaskById i (db w') = getTaskById i (db w)"
    by (simp add: getTaskById_def)
  with sel pending_id_has_row [OF pend] show ?thesis
    by simp
qed


theorem pullChanges_keeps_pending_witness:
  "''t1'' \<in> localPendingIds (db (quiet_world (Some [local_edit 300 Sync_pending])))
   \<and> getTaskById ''t1''
        (db (snd (pullChanges
                    (const_api (Inr [server_version 200]) (Inl (NetworkError ''down''))
                       (Inl (NetworkError ''down'')) (Inr ()))
                    (quiet_world (Some [local_edit 300 Sync_pending])))))
     = Inr (Some (rowToTask (local_edit 300 Sync_pending)))"
proof -
  have pend: "''t1'' \<in> localPendingIds (db (quiet_world (Some [local_edit 300 Sync_pending])))"
    by (simp add: localPendingIds_def localPendingTasks_def store_simps quiet_world_def
          world_of_def local_edit_def row_of_def)
  have cur: "getTaskById ''t1'' (db (quiet_world (Some [local_edit 300 Sync_pending])))
     = Inr (Some (rowToTask (local_edit 300 Sync_pending)))"
    by (simp add: getTaskById_def select_where_def quiet_world_def world_of_def local_edit_def
          row_of_def)
  have "getTaskById ''t1''
          (db (snd (pullChanges
                      (const_api (Inr [server_version 200]) (Inl (NetworkError ''down''))
                         (Inl (NetworkError ''down'')) (Inr ()))
                      (quiet_world (Some [local_edit 300 Sync_pending])))))
        = getTaskById ''t1'' (db (quiet_world (Some [local_edit 300 Sync_pending])))"
    using pullChanges_keeps_pending [OF pend prod.collapse [symmetric]] by blast
  with pend cur show ?thesis
    by simp
qed

subsection \<open>The check of the server's answer\<close>

text \<open>
  The condition that guards the reconciliation of \<^verbatim>\<open>pullChanges\<close> holds for every
  answer of the server: a list with an element has positive length, and no element of
  the empty list has \<^verbatim>\<open>undefined\<close> in its id. The \<^verbatim>\<open>else\<close> branch is never taken.
\<close>

lemma suspicious_check_always: "suspicious_check serverTasks"
  by (cases serverTasks) (simp_all add: suspicious_check_def)

text \<open>
  C9, at an answer of the server whose only record has the id \<^verbatim>\<open>undefined\<close>, with one
  synced record in the store: the pull phase does not skip. It inserts the record of
  the server and deletes the local record, which the answer does not contain.
\<close>

theorem pullChanges_suspicious_response_not_skipped:
  "list_all (\<lambda>t. String_includes (ApiTask.id' t) ''undefined'') [ghost_task]
   \<and> pullChanges (const_api (Inr [ghost_task]) (Inl (NetworkError ''down''))
                   (Inl (NetworkError ''down'')) (Inr ()))
        (world_of (Some [row_of ''t1'' ''Buy milk'' 50 (Some 50) Sync_synced 0 0 0])
           Net_online True)
     = ((True, None),
        (world_of (Some [row_of ''undefined'' ''Ghost'' 70 (Some 70) Sync_synced 0 0 0])
           Net_online True)\<lparr>requests := [Req_fetchTasks]\<rparr>)"
  by (simp add: pullChanges_def engine_simps store_simps ghost_task_def suspicious_check_def
        localPendingIds_def localPendingTasks_def serverTaskMap_def upsertUnlessPending_def
        removeIfAbsent_def row_of_def)

section \<open>Properties of the retry wrapper\<close>

subsection \<open>A sync cycle writes neither console message nor delay\<close>

lemma retry_trace_simps [simp]:
  "retry_trace (w\<lparr>db := d\<rparr>) = retry_trace w"
  "retry_trace (w\<lparr>server := sv\<rparr>) = retry_trace w"
  "retry_trace (w\<lparr>requests := rq\<rparr>) = retry_trace w"
  "retry_trace (w\<lparr>syncState := st\<rparr>) = retry_trace w"
  "retry_trace (w\<lparr>lastSyncTime := ts\<rparr>) = retry_trace w"
  "retry_trace (w\<lparr>lastError := err\<rparr>) = retry_trace w"
  "retry_trace (w\<lparr>isSyncInProgress := b\<rparr>) = retry_trace w"
  "retry_trace (w\<lparr>statusDelivered := sd\<rparr>) = retry_trace w"
  "retry_trace (w\<lparr>completeDelivered := cd\<rparr>) = retry_trace w"
  by (simp_all add: retry_trace_def)

lemma retry_trace_notify [simp]:
  "retry_trace (notifyStatusListeners w) = retry_trace w"
  "retry_trace (notifySyncComplete ok err w) = retry_trace w"
  "retry_trace (setSyncState st err w) = retry_trace w"
  "retry_trace (finish_sync w) = retry_trace w"
  by (simp_all add: notifyStatusListeners_def notifySyncComplete_def setSyncState_def
        finish_sync_def Let_def)














subsection \<open>The loop of the wrapper\<close>



lemma bit_length_bound: "n < 2 ^ j \<Longrightarrow> bit_length n \<le> j"
proof (induction n arbitrary: j rule: bit_length.induct)
  case (1 n)
  show ?case
  proof (cases "n = 0")
    case True
    then show ?thesis by (simp add: bit_length.simps)
  next
    case False
    with "1.prems" obtain i where j: "j = Suc i"
      by (cases j) auto
    with "1.prems" have "n div 2 < 2 ^ i"
      by auto
    with "1.IH" [OF False] have "bit_length (n div 2) \<le> i" .
    with False j show ?thesis
      by (subst bit_length.simps) simp
  qed
qed

lemma bit_length_eq: "2 ^ j \<le> n \<Longrightarrow> n < 2 ^ Suc j \<Longrightarrow> bit_length n = Suc j"
proof (induction j arbitrary: n)
  case 0
  then have "n = 1"
    by simp
  then show ?case
    by (simp add: bit_length.simps)
next
  case (Suc j)
  then have "2 ^ j \<le> n div 2" "n div 2 < 2 ^ Suc j"
    by auto
  then have "bit_length (n div 2) = Suc j"
    by (rule Suc.IH)
  moreover from Suc.prems have "n \<noteq> 0"
    by auto
  ultimately show ?case
    by (subst bit_length.simps) simp
qed

lemma to_double_exact:
  assumes "\<bar>n\<bar> \<le> 2 ^ 53"
  shows "to_double n = Num n"
proof (cases "\<bar>n\<bar> < 2 ^ 53")
  case True
  then have "nat \<bar>n\<bar> < 2 ^ 53"
    by (simp add: nat_less_iff)
  then have "bit_length (nat \<bar>n\<bar>) \<le> 53"
    by (rule bit_length_bound)
  then show ?thesis
    by (simp add: to_double_def Let_def)
next
  case False
  with assms have n: "n = 9007199254740992 \<or> n = - 9007199254740992"
    by (auto simp: abs_if split: if_splits)
  have "bit_length 9007199254740992 = Suc 53"
    by (rule bit_length_eq) simp_all
  with n show ?thesis
    by (auto simp: to_double_def Let_def)
qed

lemma js_le_Num [simp]: "js_le (Num a) (Num b) = (a \<le> b)"
  by auto

lemma js_succ: "0 \<le> k \<Longrightarrow> k < 2 ^ 53 \<Longrightarrow> js_plus (Num k) (Num 1) = Num (k + 1)"
  by (simp add: to_double_exact)







lemma js_times_exact: "\<bar>a * b\<bar> \<le> 2 ^ 53 \<Longrightarrow> js_times (Num a) (Num b) = Num (a * b)"
  by (simp add: to_double_exact)



text \<open>
  Runs of three attempts with \<^verbatim>\<open>RETRY_DELAY_MS = 1000\<close> and \<^verbatim>\<open>ERROR_BACKOFF_MS = 5000\<close>
  against a service that fails every call. Over an empty store: with a network error
  the delays are 1000 and 2000; with the error of a 401 answer, whose message starts
  with \<^verbatim>\<open>Unauthorized\<close>, they are 5000 and 5000.
\<close>

lemma idle_quiet_simps [simp]:
  "idle_quiet d (quiet_world d)"
  "idle_quiet d (failed_cycle sent msg w) = idle_quiet d w"
  "idle_quiet d (retried k msg dl w) = idle_quiet d w"
  by (simp_all add: idle_quiet_def quiet_world_def world_of_def failed_cycle_def retried_def)






end
